theory Spec2Isabelle
  imports Complex_Main
begin

section \<open>The scene of \<open>Viewer3d\<close>: objects, references and the store\<close>

text \<open>
  The class \<open>Viewer3d\<close> of \<open>src/viewer3d/index.ts\<close> keeps no state of its own beyond the
  engine's scene: every method reads and mutates engine objects (\<open>Mesh\<close>, \<open>LinesMesh\<close>,
  \<open>Vector3\<close>) that are shared by reference. The embedding therefore uses an explicit store.

  \<^item> A \<open>ref\<close> is the address of an engine object; \<open>next_ref\<close> is the next free address.
  \<^item> An \<open>id\<close> is a value of \<open>Tools.RandomId()\<close>. The engine's generator is taken to
    return a value it never returned before, so it is a counter, \<open>next_id\<close>.
  \<^item> A JavaScript \<open>number\<close> is a \<open>real\<close>: rounding is not modelled.
  \<^item> \<open>mesh.position\<close> is a reference to a \<open>Vector3\<close>; \<open>addInPlace\<close> mutates that object,
    and every array that holds the same reference sees the change.
  \<^item> \<open>metadata\<close> is \<open>null\<close> on an object the engine has just built; only \<open>addMesh\<close>,
    \<open>addLine\<close> and \<open>importMesh\<close> fill it in. Reading a property of \<open>null\<close> or
    \<open>undefined\<close> throws a \<open>TypeError\<close>.
  \<^item> \<open>dispose\<close> frees the vertex buffer of a line. The line object stays where it is
    referenced, and writing coordinates into the missing buffer throws a \<open>TypeError\<close>.
  \<^item> A call needs a frame of the engine's call stack, and a call for which no frame is
    left throws a \<open>RangeError\<close>. Only \<open>root\<close> calls itself, so only \<open>root\<close> counts frames.
  \<^item> A method that throws leaves through \<open>Inl\<close>; a method that returns gives \<open>Inr\<close> with
    the store it leaves behind.
  \<^item> Only \<open>importMesh\<close> assigns a name, so the other methods read names from the store
    they are called in.
\<close>

type_synonym ref = nat
type_synonym id = nat

datatype error = TypeError | RangeError | LoadError

record vector3 =
  vx :: real
  vy :: real
  vz :: real

text \<open>\<open>interface Point { x?: number; y?: number; z?: number }\<close>\<close>

record point =
  px :: "real option"
  py :: "real option"
  pz :: "real option"

text \<open>\<open>mesh.metadata = { type, lines: [] }\<close>\<close>

record mesh_metadata =
  mtype :: string
  lines :: "ref list"

text \<open>
  A node of the engine (\<open>Mesh\<close> and \<open>TransformNode\<close> alike): its name, the reference to
  its position vector, its parent and its metadata.
\<close>

record mesh =
  name :: id
  position :: ref
  parent :: "ref option"
  metadata :: "mesh_metadata option"

text \<open>
  \<open>line.metadata = { option, from, to }\<close> with \<open>option = { points, updatable, instance }\<close>.
  Only \<open>points\<close> of \<open>option\<close> is ever read back, so the record holds it directly; the
  fields \<open>from\<close> and \<open>to\<close> are \<open>lfrom\<close> and \<open>lto\<close>.
\<close>

record line_metadata =
  points :: "ref list"
  lfrom :: "ref option"
  lto :: "ref option"

text \<open>
  A \<open>LinesMesh\<close>: its name, its metadata and its vertex buffer, which holds the positions
  the engine drew last (\<open>MeshBuilder.CreateLines\<close> copies the coordinates of the points
  into it) and is \<open>None\<close> once the line is disposed.
\<close>

record line =
  lname :: id
  lmetadata :: "line_metadata option"
  vertices :: "vector3 list option"

record state =
  vectors :: "ref \<Rightarrow> vector3"
  meshes :: "ref \<Rightarrow> mesh"
  lineobjs :: "ref \<Rightarrow> line"
  geometries :: "ref \<Rightarrow> id"
  scene_meshes :: "ref set"
  next_ref :: ref
  next_id :: id

text \<open>The scene right after \<open>new Viewer3d(canvas)\<close>: no mesh, no line.\<close>

definition init :: state where
  "init = \<lparr>vectors = (\<lambda>_. \<lparr>vx = 0, vy = 0, vz = 0\<rparr>),
           meshes = (\<lambda>_. \<lparr>name = 0, position = 0, parent = None, metadata = None\<rparr>),
           lineobjs = (\<lambda>_. \<lparr>lname = 0, lmetadata = None, vertices = None\<rparr>),
           geometries = (\<lambda>_. 0),
           scene_meshes = {},
           next_ref = 0,
           next_id = 0\<rparr>"

section \<open>The engine's part\<close>

text \<open>\<open>Tools.RandomId()\<close>\<close>

definition RandomId :: "state \<Rightarrow> id \<times> state" where
  "RandomId s = (next_id s, s\<lparr>next_id := Suc (next_id s)\<rparr>)"

text \<open>
  \<open>MeshBuilder.CreateBox(name, opt, scene)\<close> and \<open>MeshBuilder.CreateSphere\<close>: a new mesh
  at the origin with a position vector of its own, no parent and no metadata, registered
  in the scene. The shape only affects what is drawn.
\<close>

definition CreateMesh :: "id \<Rightarrow> state \<Rightarrow> ref \<times> state" where
  "CreateMesh nm s =
     (let a = next_ref s; p = Suc a
      in (a, s\<lparr>vectors := (vectors s)(p := \<lparr>vx = 0, vy = 0, vz = 0\<rparr>),
                meshes := (meshes s)(a := \<lparr>name = nm, position = p, parent = None, metadata = None\<rparr>),
                scene_meshes := insert a (scene_meshes s),
                next_ref := Suc p\<rparr>))"

text \<open>
  \<open>MeshBuilder.CreateLines(name, option, scene)\<close> without an instance: a new line drawn
  through the current coordinates of the points, registered in the scene.
\<close>

definition CreateLines :: "id \<Rightarrow> ref list \<Rightarrow> state \<Rightarrow> ref \<times> state" where
  "CreateLines nm pts s =
     (let a = next_ref s
      in (a, s\<lparr>lineobjs := (lineobjs s)(a := \<lparr>lname = nm, lmetadata = None,
                                                vertices = Some (map (vectors s) pts)\<rparr>),
                scene_meshes := insert a (scene_meshes s),
                next_ref := Suc a\<rparr>))"

text \<open>\<open>v.clone()\<close>: a new vector with the same coordinates.\<close>

definition clone :: "ref \<Rightarrow> state \<Rightarrow> ref \<times> state" where
  "clone v s =
     (let a = next_ref s
      in (a, s\<lparr>vectors := (vectors s)(a := vectors s v), next_ref := Suc a\<rparr>))"

text \<open>\<open>v.addInPlace(w)\<close>\<close>

definition addInPlace :: "vector3 \<Rightarrow> vector3 \<Rightarrow> vector3" where
  "addInPlace v w = \<lparr>vx = vx v + vx w, vy = vy v + vy w, vz = vz v + vz w\<rparr>"

text \<open>\<open>mesh.dispose(); this.scene.removeMesh(mesh)\<close>: the mesh leaves the scene.\<close>

definition dispose :: "ref \<Rightarrow> state \<Rightarrow> state" where
  "dispose a s = s\<lparr>scene_meshes := scene_meshes s - {a}\<rparr>"

text \<open>
  \<open>line.dispose(); this.scene.removeMesh(line)\<close>: the line leaves the scene and its vertex
  buffer is freed.
\<close>

definition dispose_line :: "ref \<Rightarrow> state \<Rightarrow> state" where
  "dispose_line l s =
     s\<lparr>lineobjs := (lineobjs s)(l := (lineobjs s l)\<lparr>vertices := None\<rparr>),
       scene_meshes := scene_meshes s - {l}\<rparr>"

text \<open>
  Array writes. \<open>points[0] = v\<close> extends an empty array; \<open>points[points.length - 1] = v\<close>
  on an empty array writes the property \<open>-1\<close>, which is no element of the array.
\<close>

definition set_first :: "'a list \<Rightarrow> 'a \<Rightarrow> 'a list" where
  "set_first xs v = (if xs = [] then [v] else xs[0 := v])"

definition set_last :: "'a list \<Rightarrow> 'a \<Rightarrow> 'a list" where
  "set_last xs v = (if xs = [] then [] else xs[length xs - 1 := v])"

text \<open>\<open>lines.splice(lines.findIndex(p), 1)\<close> when an element satisfies \<open>p\<close>.\<close>

fun splice_first :: "('a \<Rightarrow> bool) \<Rightarrow> 'a list \<Rightarrow> 'a list" where
  "splice_first p [] = []"
| "splice_first p (x # xs) = (if p x then xs else x # splice_first p xs)"

text \<open>\<open>xs.forEach(f)\<close> for an \<open>f\<close> that may throw.\<close>

fun forEach :: "('a \<Rightarrow> state \<Rightarrow> error + state) \<Rightarrow> 'a list \<Rightarrow> state \<Rightarrow> error + state" where
  "forEach f [] s = Inr s"
| "forEach f (x # xs) s = (case f x s of Inl e \<Rightarrow> Inl e | Inr s' \<Rightarrow> forEach f xs s')"

section \<open>The methods of \<open>Viewer3d\<close>\<close>

text \<open>
  \<open>updateLine(line)\<close>: \<open>MeshBuilder.CreateLines(line.name, line.metadata.option, scene)\<close>
  with \<open>option.instance = line\<close> writes the coordinates of the points into the vertex
  buffer of the line. A disposed line has no buffer, and the write throws.
\<close>

definition updateLine :: "ref \<Rightarrow> state \<Rightarrow> error + state" where
  "updateLine l s =
     (case lmetadata (lineobjs s l) of
        None \<Rightarrow> Inl TypeError
      | Some lmd \<Rightarrow>
          (case vertices (lineobjs s l) of
             None \<Rightarrow> Inl TypeError
           | Some _ \<Rightarrow>
               Inr (s\<lparr>lineobjs := (lineobjs s)(l := (lineobjs s l)
                         \<lparr>vertices := Some (map (vectors s) (points lmd))\<rparr>)\<rparr>)))"

definition updateLinesOnMesh :: "ref \<Rightarrow> state \<Rightarrow> error + state" where
  "updateLinesOnMesh m s =
     (case metadata (meshes s m) of
        None \<Rightarrow> Inl TypeError
      | Some mmd \<Rightarrow> forEach updateLine (lines mmd) s)"

definition move :: "ref \<Rightarrow> point \<Rightarrow> state \<Rightarrow> error + state" where
  "move m diff s =
     (let x = (case px diff of None \<Rightarrow> 0 | Some v \<Rightarrow> v);
          y = (case py diff of None \<Rightarrow> 0 | Some v \<Rightarrow> v);
          z = (case pz diff of None \<Rightarrow> 0 | Some v \<Rightarrow> v);
          pt = \<lparr>vx = x, vy = y, vz = z\<rparr>;
          p = position (meshes s m);
          s1 = s\<lparr>vectors := (vectors s)(p := addInPlace (vectors s p) pt)\<rparr>
      in case metadata (meshes s1 m) of
           None \<Rightarrow> Inl TypeError
         | Some mmd \<Rightarrow> if length (lines mmd) > 0 then updateLinesOnMesh m s1 else Inr s1)"

definition moveTo :: "ref \<Rightarrow> point \<Rightarrow> state \<Rightarrow> error + state" where
  "moveTo m pt s =
     (let cur = vectors s (position (meshes s m));
          x = (case px pt of None \<Rightarrow> vx cur | Some v \<Rightarrow> v);
          y = (case py pt of None \<Rightarrow> vy cur | Some v \<Rightarrow> v);
          z = (case pz pt of None \<Rightarrow> vz cur | Some v \<Rightarrow> v);
          diff = \<lparr>px = Some (x - vx cur), py = Some (y - vy cur), pz = Some (z - vz cur)\<rparr>
      in move m diff s)"

text \<open>
  \<open>addMesh(type, option)\<close> returns the mesh, or \<open>null\<close> (\<open>None\<close>) when the type matches
  no case of the \<open>switch\<close>. \<open>option\<close> reaches the drawable only and is left out.
\<close>

definition addMesh :: "string \<Rightarrow> state \<Rightarrow> error + (ref option \<times> state)" where
  "addMesh type s =
     (let (m, s1) =
            (if type = ''box'' then
               (let (nm, s0) = RandomId s; (a, s') = CreateMesh nm s0 in (Some a, s'))
             else if type = ''sphere'' then
               (let (nm, s0) = RandomId s; (a, s') = CreateMesh nm s0 in (Some a, s'))
             else (None, s))
      in case m of
           None \<Rightarrow> Inr (None, s1)
         | Some a \<Rightarrow>
             Inr (Some a, s1\<lparr>meshes := (meshes s1)(a := (meshes s1 a)\<lparr>metadata := Some \<lparr>mtype = type, lines = []\<rparr>\<rparr>)\<rparr>))"

text \<open>\<open>mesh.metadata.lines.push(line)\<close>\<close>

definition push_line :: "ref \<Rightarrow> ref \<Rightarrow> state \<Rightarrow> error + state" where
  "push_line m l s =
     (case metadata (meshes s m) of
        None \<Rightarrow> Inl TypeError
      | Some mmd \<Rightarrow>
          Inr (s\<lparr>meshes := (meshes s)(m := (meshes s m)\<lparr>metadata := Some (mmd\<lparr>lines := lines mmd @ [l]\<rparr>)\<rparr>)\<rparr>))"

definition addLine :: "ref \<Rightarrow> ref \<Rightarrow> state \<Rightarrow> error + (ref \<times> state)" where
  "addLine mesh1 mesh2 s =
     (let pts = [position (meshes s mesh1), position (meshes s mesh2)];
          (nm, s0) = RandomId s;
          (l, s1) = CreateLines nm pts s0;
          s2 = s1\<lparr>lineobjs := (lineobjs s1)(l := (lineobjs s1 l)
                    \<lparr>lmetadata := Some \<lparr>points = pts, lfrom = Some mesh1, lto = Some mesh2\<rparr>\<rparr>)\<rparr>
      in case push_line mesh1 l s2 of
           Inl e \<Rightarrow> Inl e
         | Inr s3 \<Rightarrow>
             (case push_line mesh2 l s3 of
                Inl e \<Rightarrow> Inl e
              | Inr s4 \<Rightarrow> Inr (l, s4)))"

datatype endpoint = From | To

definition connectLine :: "ref \<Rightarrow> ref \<Rightarrow> endpoint \<Rightarrow> state \<Rightarrow> error + state" where
  "connectLine m l type s =
     (case metadata (meshes s m) of
        None \<Rightarrow> Inl TypeError
      | Some mmd \<Rightarrow>
     (case lmetadata (lineobjs s l) of
        None \<Rightarrow> Inl TypeError
      | Some lmd \<Rightarrow>
          (let lmd1 = (if type = From
                       then lmd\<lparr>lfrom := Some m, points := set_first (points lmd) (position (meshes s m))\<rparr>
                       else lmd);
               lmd2 = (if type = To
                       then lmd1\<lparr>lto := Some m, points := set_last (points lmd1) (position (meshes s m))\<rparr>
                       else lmd1);
               s1 = s\<lparr>lineobjs := (lineobjs s)(l := (lineobjs s l)\<lparr>lmetadata := Some lmd2\<rparr>)\<rparr>;
               s2 = (if find (\<lambda>k. lname (lineobjs s k) = lname (lineobjs s l)) (lines mmd) = None
                     then s1\<lparr>meshes := (meshes s1)(m := (meshes s1 m)\<lparr>metadata := Some (mmd\<lparr>lines := lines mmd @ [l]\<rparr>)\<rparr>)\<rparr>
                     else s1)
           in updateLine l s2)))"

text \<open>
  One endpoint of \<open>disconnectLine\<close>: \<open>option.points[i] = option.points[i].clone()\<close>, where
  \<open>points[i]\<close> of an empty array is \<open>undefined\<close>.
\<close>

definition freeze_first :: "ref list \<Rightarrow> state \<Rightarrow> error + (ref list \<times> state)" where
  "freeze_first pts s =
     (case pts of
        [] \<Rightarrow> Inl TypeError
      | p # _ \<Rightarrow> (let (c, s') = clone p s in Inr (set_first pts c, s')))"

definition freeze_last :: "ref list \<Rightarrow> state \<Rightarrow> error + (ref list \<times> state)" where
  "freeze_last pts s =
     (if pts = [] then Inl TypeError
      else (let (c, s') = clone (last pts) s in Inr (set_last pts c, s')))"

text \<open>
  \<open>disconnectLine(mesh, line)\<close>. \<open>removeLine\<close> may pass \<open>null\<close> for the mesh, so the mesh
  is a \<open>ref option\<close>. \<open>from\<close> and \<open>to\<close> are read once, at the start.
\<close>

definition disconnectLine :: "ref option \<Rightarrow> ref \<Rightarrow> state \<Rightarrow> error + state" where
  "disconnectLine mo l s =
     (case mo of
        None \<Rightarrow> Inl TypeError
      | Some m \<Rightarrow>
     (case metadata (meshes s m) of
        None \<Rightarrow> Inl TypeError
      | Some mmd \<Rightarrow>
     (case lmetadata (lineobjs s l) of
        None \<Rightarrow> Inl TypeError
      | Some lmd \<Rightarrow>
     (case (if (case lfrom lmd of None \<Rightarrow> False | Some f \<Rightarrow> name (meshes s f) = name (meshes s m))
            then (case freeze_first (points lmd) s of
                    Inl e \<Rightarrow> Inl e
                  | Inr (pts, s') \<Rightarrow> Inr (lmd\<lparr>lfrom := None, points := pts\<rparr>, s'))
            else Inr (lmd, s)) of
        Inl e \<Rightarrow> Inl e
      | Inr (lmd1, s1) \<Rightarrow>
     (case (if (case lto lmd of None \<Rightarrow> False | Some t \<Rightarrow> name (meshes s t) = name (meshes s m))
            then (case freeze_last (points lmd1) s1 of
                    Inl e \<Rightarrow> Inl e
                  | Inr (pts, s') \<Rightarrow> Inr (lmd1\<lparr>lto := None, points := pts\<rparr>, s'))
            else Inr (lmd1, s1)) of
        Inl e \<Rightarrow> Inl e
      | Inr (lmd2, s2) \<Rightarrow>
          (let s3 = s2\<lparr>lineobjs := (lineobjs s2)(l := (lineobjs s2 l)\<lparr>lmetadata := Some lmd2\<rparr>)\<rparr>;
               s4 = s3\<lparr>meshes := (meshes s3)(m := (meshes s3 m)
                         \<lparr>metadata := Some (mmd\<lparr>lines :=
                            splice_first (\<lambda>k. lname (lineobjs s k) = lname (lineobjs s l)) (lines mmd)\<rparr>)\<rparr>)\<rparr>
           in updateLine l s4))))))"

definition disconnectLinesOnMesh :: "ref \<Rightarrow> state \<Rightarrow> error + state" where
  "disconnectLinesOnMesh m s =
     (case metadata (meshes s m) of
        None \<Rightarrow> Inl TypeError
      | Some mmd \<Rightarrow> forEach (\<lambda>l. disconnectLine (Some m) l) (lines mmd) s)"

definition removeMesh :: "ref \<Rightarrow> state \<Rightarrow> error + state" where
  "removeMesh m s =
     (case disconnectLinesOnMesh m s of
        Inl e \<Rightarrow> Inl e
      | Inr s' \<Rightarrow> Inr (dispose m s'))"

text \<open>
  \<open>removeLine(line)\<close>: both branches call \<open>disconnectLine(from, line)\<close>, with the \<open>from\<close>
  read at the start.
\<close>

definition removeLine :: "ref \<Rightarrow> state \<Rightarrow> error + state" where
  "removeLine l s =
     (case lmetadata (lineobjs s l) of
        None \<Rightarrow> Inl TypeError
      | Some lmd \<Rightarrow>
     (case (if lfrom lmd \<noteq> None then disconnectLine (lfrom lmd) l s else Inr s) of
        Inl e \<Rightarrow> Inl e
      | Inr s1 \<Rightarrow>
     (case (if lto lmd \<noteq> None then disconnectLine (lfrom lmd) l s1 else Inr s1) of
        Inl e \<Rightarrow> Inl e
      | Inr s2 \<Rightarrow> Inr (dispose_line l s2))))"

definition removeLinesOnMesh :: "ref \<Rightarrow> state \<Rightarrow> error + state" where
  "removeLinesOnMesh m s =
     (case metadata (meshes s m) of
        None \<Rightarrow> Inl TypeError
      | Some mmd \<Rightarrow> forEach removeLine (lines mmd) s)"

text \<open>
  \<open>root(mesh)\<close> calls itself on the parent, and nothing in it bounds the recursion but the
  call stack of the engine: \<open>root_mesh d s m\<close> is the call \<open>root(m)\<close> made when the stack
  has room for \<open>d\<close> more frames. It is \<open>root_mesh\<close> here, \<open>root\<close> being the root of a real
  number.
\<close>

fun root_mesh :: "nat \<Rightarrow> state \<Rightarrow> ref \<Rightarrow> error + ref" where
  "root_mesh 0 s m = Inl RangeError"
| "root_mesh (Suc d) s m =
     (case parent (meshes s m) of Some p \<Rightarrow> root_mesh d s p | None \<Rightarrow> Inr m)"

text \<open>
  What \<open>SceneLoader.ImportMeshAsync\<close> resolves to. Transform nodes are nodes of the
  engine like meshes and live in \<open>meshes\<close>; a geometry has an \<open>id\<close> only.
\<close>

record import_result =
  res_meshes :: "ref list"
  res_transformNodes :: "ref list"
  res_geometries :: "ref list"

text \<open>\<open>mesh.name = Tools.RandomId()\<close> and \<open>geometry.id = Tools.RandomId()\<close>\<close>

definition rename_node :: "ref \<Rightarrow> state \<Rightarrow> state" where
  "rename_node a s =
     (let (nm, s0) = RandomId s
      in s0\<lparr>meshes := (meshes s0)(a := (meshes s0 a)\<lparr>name := nm\<rparr>)\<rparr>)"

definition rename_geometry :: "ref \<Rightarrow> state \<Rightarrow> state" where
  "rename_geometry a s =
     (let (nm, s0) = RandomId s
      in s0\<lparr>geometries := (geometries s0)(a := nm)\<rparr>)"

text \<open>
  \<open>importMesh(rootPath, name, meshName)\<close>. The loader is the engine's: the method is
  modelled for any loader \<open>ImportMeshAsync\<close>, which fails (the promise is rejected, and
  \<open>await\<close> throws the same error) or resolves to a result and the scene that holds the
  loaded objects. \<open>meshes.find\<close> gives \<open>undefined\<close> when no mesh satisfies the
  test, and \<open>rootMesh.metadata\<close> then throws. Both fields of the metadata are assigned,
  whatever the loader left there. The method returns \<open>{ result, rootMesh }\<close>.
\<close>

definition importMesh ::
  "(state \<Rightarrow> error + (import_result \<times> state)) \<Rightarrow> state \<Rightarrow> error + ((import_result \<times> ref) \<times> state)" where
  "importMesh ImportMeshAsync s =
     (case ImportMeshAsync s of
        Inl e \<Rightarrow> Inl e
      | Inr (result, s0) \<Rightarrow>
          (let s1 = fold rename_node (res_meshes result) s0;
               s2 = fold rename_node (res_transformNodes result) s1;
               s3 = fold rename_geometry (res_geometries result) s2
           in case find (\<lambda>m. parent (meshes s3 m) = None) (res_meshes result) of
                None \<Rightarrow> Inl TypeError
              | Some rootMesh \<Rightarrow>
                  Inr ((result, rootMesh),
                       s3\<lparr>meshes := (meshes s3)(rootMesh := (meshes s3 rootMesh)
                            \<lparr>metadata := Some \<lparr>mtype = ''import'', lines = []\<rparr>\<rparr>)\<rparr>)))"

section \<open>Sequences of calls\<close>

text \<open>
  A call of one of the methods that change which line is attached to which mesh, or
  where a mesh is; \<open>run\<close> performs a sequence of calls and stops at the first that throws.
\<close>

datatype op =
    AddMesh string
  | RemoveMesh ref
  | AddLine ref ref
  | RemoveLine ref
  | RemoveLinesOnMesh ref
  | ConnectLine ref ref endpoint
  | DisconnectLine ref ref
  | DisconnectLinesOnMesh ref
  | Move ref point
  | MoveTo ref point

fun step :: "op \<Rightarrow> state \<Rightarrow> error + state" where
  "step (AddMesh type) s = (case addMesh type s of Inl e \<Rightarrow> Inl e | Inr (_, s') \<Rightarrow> Inr s')"
| "step (RemoveMesh m) s = removeMesh m s"
| "step (AddLine mesh1 mesh2) s = (case addLine mesh1 mesh2 s of Inl e \<Rightarrow> Inl e | Inr (_, s') \<Rightarrow> Inr s')"
| "step (RemoveLine l) s = removeLine l s"
| "step (RemoveLinesOnMesh m) s = removeLinesOnMesh m s"
| "step (ConnectLine m l type) s = connectLine m l type s"
| "step (DisconnectLine m l) s = disconnectLine (Some m) l s"
| "step (DisconnectLinesOnMesh m) s = disconnectLinesOnMesh m s"
| "step (Move m diff) s = move m diff s"
| "step (MoveTo m pt) s = moveTo m pt s"

definition run :: "op list \<Rightarrow> state \<Rightarrow> error + state" where
  "run ops s = forEach step ops s"

section \<open>Parent chains and example scenes\<close>

text \<open>
  \<open>ancestor s k m\<close> is the node reached from \<open>m\<close> after \<open>k\<close> steps along \<open>parent\<close>, if
  the chain is that long. The chain of \<open>m\<close> ends when some ancestor has no parent; it
  contains a cycle when some ancestor is its own ancestor after at least one step.
\<close>

fun ancestor :: "state \<Rightarrow> nat \<Rightarrow> ref \<Rightarrow> ref option" where
  "ancestor s 0 m = Some m"
| "ancestor s (Suc k) m = (case parent (meshes s m) of None \<Rightarrow> None | Some p \<Rightarrow> ancestor s k p)"

text \<open>The store a sequence of calls leaves behind (\<open>init\<close> if a call threw).\<close>

definition the_state :: "error + state \<Rightarrow> state" where
  "the_state r = (case r of Inl _ \<Rightarrow> init | Inr s \<Rightarrow> s)"

text \<open>
  Two boxes \<open>0\<close> and \<open>2\<close> (position vectors \<open>1\<close> and \<open>3\<close>) joined by the line \<open>4\<close>; three
  boxes \<open>0\<close>, \<open>2\<close> and \<open>4\<close> (position vectors \<open>1\<close>, \<open>3\<close> and \<open>5\<close>) with the line \<open>6\<close> from
  \<open>0\<close> to \<open>4\<close>; one box \<open>0\<close> (position vector \<open>1\<close>) with the line \<open>2\<close> from \<open>0\<close> to \<open>0\<close>.
\<close>

definition two_boxes_scene :: state where
  "two_boxes_scene = the_state (run [AddMesh ''box'', AddMesh ''box'', AddLine 0 2] init)"

definition three_boxes_scene :: state where
  "three_boxes_scene =
     the_state (run [AddMesh ''box'', AddMesh ''box'', AddMesh ''box'', AddLine 0 4] init)"

definition self_loop_scene :: state where
  "self_loop_scene = the_state (run [AddMesh ''box'', AddLine 0 0] init)"


definition dangling_line_scene :: state where
  "dangling_line_scene =
     the_state (run [AddMesh ''box'', AddMesh ''box'', AddLine 2 0, RemoveLine 4] init)"

definition removed_line_scene :: state where
  "removed_line_scene =
     the_state (run [AddMesh ''box'', AddMesh ''box'', AddLine 2 0, RemoveLine 4, AddLine 0 2] init)"

text \<open>The target \<open>{ x: 5 }\<close>.\<close>

definition x5 :: point where
  "x5 = \<lparr>px = Some 5, py = None, pz = None\<rparr>"

text \<open>Node \<open>0\<close> with parent \<open>1\<close> with parent \<open>2\<close>, which has none.\<close>

definition chain_scene :: state where
  "chain_scene = init\<lparr>meshes := (meshes init)
       (0 := \<lparr>name = 0, position = 3, parent = Some 1, metadata = None\<rparr>,
        1 := \<lparr>name = 1, position = 4, parent = Some 2, metadata = None\<rparr>,
        2 := \<lparr>name = 2, position = 5, parent = None, metadata = None\<rparr>),
     next_ref := 6, next_id := 3\<rparr>"

text \<open>Node \<open>0\<close> with parent \<open>1\<close> with parent \<open>0\<close>.\<close>

definition cyclic_scene :: state where
  "cyclic_scene = init\<lparr>meshes := (meshes init)
       (0 := \<lparr>name = 0, position = 2, parent = Some 1, metadata = None\<rparr>,
        1 := \<lparr>name = 1, position = 3, parent = Some 0, metadata = None\<rparr>),
     next_ref := 4, next_id := 2\<rparr>"

text \<open>Three loaders: one that fails, one whose only mesh has a parent, one with two roots.\<close>

definition load_fails :: "state \<Rightarrow> error + (import_result \<times> state)" where
  "load_fails s = Inl LoadError"

definition load_child_only :: "state \<Rightarrow> error + (import_result \<times> state)" where
  "load_child_only s =
     Inr (\<lparr>res_meshes = [0], res_transformNodes = [1], res_geometries = []\<rparr>,
          s\<lparr>meshes := (meshes s)
                (0 := \<lparr>name = 7, position = 2, parent = Some 1, metadata = None\<rparr>,
                 1 := \<lparr>name = 8, position = 3, parent = None, metadata = None\<rparr>),
            scene_meshes := {0},
            next_ref := 4\<rparr>)"

definition load_two_roots :: "state \<Rightarrow> error + (import_result \<times> state)" where
  "load_two_roots s =
     Inr (\<lparr>res_meshes = [0, 1], res_transformNodes = [], res_geometries = []\<rparr>,
          s\<lparr>meshes := (meshes s)
                (0 := \<lparr>name = 7, position = 2, parent = None, metadata = None\<rparr>,
                 1 := \<lparr>name = 7, position = 3, parent = None, metadata = None\<rparr>),
            scene_meshes := {0, 1},
            next_ref := 4\<rparr>)"

section \<open>Well-formed scenes\<close>

text \<open>
  What every scene built by the methods satisfies. \<open>wf_mesh\<close>: a mesh with metadata and its
  position vector are allocated, two such meshes have different position vectors, and
  the lists hold lines with metadata. \<open>wf_line\<close>: a line with metadata is allocated, its
  name was issued by \<open>Tools.RandomId\<close>, it has two allocated points, and two such lines
  have different names. \<open>wf_bound\<close>: a line bound to a mesh at \<open>from\<close> (at \<open>to\<close>) is in
  the list of the mesh, and its first (last) point is the position vector of the mesh.
  \<open>wf_alias\<close>: a point of a line is the position vector of a mesh with metadata only at
  an endpoint bound to that mesh.
\<close>

definition wf_mesh :: "state \<Rightarrow> bool" where
  "wf_mesh s \<longleftrightarrow>
     (\<forall>m. metadata (meshes s m) \<noteq> None \<longrightarrow> m < next_ref s \<and> position (meshes s m) < next_ref s)
   \<and> (\<forall>m m'. metadata (meshes s m) \<noteq> None \<and> metadata (meshes s m') \<noteq> None
          \<and> position (meshes s m) = position (meshes s m') \<longrightarrow> m = m')
   \<and> (\<forall>m mmd l. metadata (meshes s m) = Some mmd \<and> l \<in> set (lines mmd) \<longrightarrow> lmetadata (lineobjs s l) \<noteq> None)"

definition wf_line :: "state \<Rightarrow> bool" where
  "wf_line s \<longleftrightarrow>
     (\<forall>l lmd. lmetadata (lineobjs s l) = Some lmd \<longrightarrow>
        l < next_ref s \<and> lname (lineobjs s l) < next_id s
      \<and> (\<exists>a b. points lmd = [a, b] \<and> a < next_ref s \<and> b < next_ref s))
   \<and> (\<forall>l l'. lmetadata (lineobjs s l) \<noteq> None \<and> lmetadata (lineobjs s l') \<noteq> None
          \<and> lname (lineobjs s l) = lname (lineobjs s l') \<longrightarrow> l = l')"

definition wf_bound :: "state \<Rightarrow> bool" where
  "wf_bound s \<longleftrightarrow>
     (\<forall>l lmd p. lmetadata (lineobjs s l) = Some lmd \<and> lfrom lmd = Some p \<longrightarrow>
        (\<exists>mmd. metadata (meshes s p) = Some mmd \<and> l \<in> set (lines mmd))
      \<and> points lmd ! 0 = position (meshes s p))
   \<and> (\<forall>l lmd p. lmetadata (lineobjs s l) = Some lmd \<and> lto lmd = Some p \<longrightarrow>
        (\<exists>mmd. metadata (meshes s p) = Some mmd \<and> l \<in> set (lines mmd))
      \<and> points lmd ! 1 = position (meshes s p))"

definition wf_alias :: "state \<Rightarrow> bool" where
  "wf_alias s \<longleftrightarrow>
     (\<forall>l lmd m. lmetadata (lineobjs s l) = Some lmd \<and> metadata (meshes s m) \<noteq> None
        \<and> points lmd ! 0 = position (meshes s m) \<longrightarrow> lfrom lmd = Some m)
   \<and> (\<forall>l lmd m. lmetadata (lineobjs s l) = Some lmd \<and> metadata (meshes s m) \<noteq> None
        \<and> points lmd ! 1 = position (meshes s m) \<longrightarrow> lto lmd = Some m)"

text \<open>A line that is bound at \<open>from\<close> has not been disposed.\<close>

definition wf_live :: "state \<Rightarrow> bool" where
  "wf_live s \<longleftrightarrow>
     (\<forall>l lmd. lmetadata (lineobjs s l) = Some lmd \<and> lfrom lmd \<noteq> None \<longrightarrow>
        vertices (lineobjs s l) \<noteq> None)"

definition wf_scene :: "state \<Rightarrow> bool" where
  "wf_scene s \<longleftrightarrow> wf_mesh s \<and> wf_line s \<and> wf_bound s \<and> wf_alias s"

section \<open>Every method keeps the scene well-formed\<close>

lemma wf_mesh_lt:
  "wf_mesh s \<Longrightarrow> metadata (meshes s m) \<noteq> None \<Longrightarrow> m < next_ref s \<and> position (meshes s m) < next_ref s"
  by (simp add: wf_mesh_def)

lemma wf_mesh_inj:
  "wf_mesh s \<Longrightarrow> metadata (meshes s m) \<noteq> None \<Longrightarrow> metadata (meshes s m') \<noteq> None \<Longrightarrow>
   position (meshes s m) = position (meshes s m') \<Longrightarrow> m = m'"
  unfolding wf_mesh_def by blast

lemma wf_mesh_lines:
  "wf_mesh s \<Longrightarrow> metadata (meshes s m) = Some mmd \<Longrightarrow> l \<in> set (lines mmd) \<Longrightarrow>
   lmetadata (lineobjs s l) \<noteq> None"
  unfolding wf_mesh_def by blast

lemma wf_line_lt:
  "wf_line s \<Longrightarrow> lmetadata (lineobjs s l) = Some lmd \<Longrightarrow>
   l < next_ref s \<and> lname (lineobjs s l) < next_id s"
  unfolding wf_line_def by blast

lemma wf_line_points:
  "wf_line s \<Longrightarrow> lmetadata (lineobjs s l) = Some lmd \<Longrightarrow>
   \<exists>a b. points lmd = [a, b] \<and> a < next_ref s \<and> b < next_ref s"
  unfolding wf_line_def by blast

lemma wf_line_inj:
  "wf_line s \<Longrightarrow> lmetadata (lineobjs s l) \<noteq> None \<Longrightarrow> lmetadata (lineobjs s l') \<noteq> None \<Longrightarrow>
   lname (lineobjs s l) = lname (lineobjs s l') \<Longrightarrow> l = l'"
  unfolding wf_line_def by blast

lemma wf_bound_from:
  "wf_bound s \<Longrightarrow> lmetadata (lineobjs s l) = Some lmd \<Longrightarrow> lfrom lmd = Some p \<Longrightarrow>
   (\<exists>mmd. metadata (meshes s p) = Some mmd \<and> l \<in> set (lines mmd))
   \<and> points lmd ! 0 = position (meshes s p)"
  unfolding wf_bound_def by blast

lemma wf_bound_to:
  "wf_bound s \<Longrightarrow> lmetadata (lineobjs s l) = Some lmd \<Longrightarrow> lto lmd = Some p \<Longrightarrow>
   (\<exists>mmd. metadata (meshes s p) = Some mmd \<and> l \<in> set (lines mmd))
   \<and> points lmd ! 1 = position (meshes s p)"
  unfolding wf_bound_def by blast

lemma wf_alias_from:
  "wf_alias s \<Longrightarrow> lmetadata (lineobjs s l) = Some lmd \<Longrightarrow> metadata (meshes s m) \<noteq> None \<Longrightarrow>
   points lmd ! 0 = position (meshes s m) \<Longrightarrow> lfrom lmd = Some m"
  unfolding wf_alias_def by blast

lemma wf_alias_to:
  "wf_alias s \<Longrightarrow> lmetadata (lineobjs s l) = Some lmd \<Longrightarrow> metadata (meshes s m) \<noteq> None \<Longrightarrow>
   points lmd ! 1 = position (meshes s m) \<Longrightarrow> lto lmd = Some m"
  unfolding wf_alias_def by blast

lemma wf_init: "wf_scene init"
  by (simp add: wf_scene_def wf_mesh_def wf_line_def wf_bound_def wf_alias_def init_def)

lemma set_splice_first: "set (splice_first p xs) \<subseteq> set xs"
  by (induction xs) auto

lemma splice_first_keeps: "x \<in> set xs \<Longrightarrow> \<not> p x \<Longrightarrow> x \<in> set (splice_first p xs)"
  by (induction xs) auto


lemmas dl_defs = disconnectLine_def freeze_first_def freeze_last_def clone_def updateLine_def Let_def
  set_first_def set_last_def

lemma dl_mesh_other:
  "disconnectLine (Some m) l s = Inr s' \<Longrightarrow> k \<noteq> m \<Longrightarrow> meshes s' k = meshes s k"
  by (auto simp: dl_defs split: option.splits if_splits sum.splits prod.splits list.splits)

lemma dl_position:
  "disconnectLine (Some m) l s = Inr s' \<Longrightarrow> position (meshes s' k) = position (meshes s k)"
  by (auto simp: dl_defs split: option.splits if_splits sum.splits prod.splits list.splits)

lemma dl_metadata:
  "disconnectLine (Some m) l s = Inr s' \<Longrightarrow>
   \<exists>mmd mmd'. metadata (meshes s m) = Some mmd \<and> metadata (meshes s' m) = Some mmd'
       \<and> set (lines mmd') \<subseteq> set (lines mmd)
       \<and> (\<forall>x\<in>set (lines mmd). lname (lineobjs s x) \<noteq> lname (lineobjs s l) \<longrightarrow> x \<in> set (lines mmd'))"
  by (auto simp: dl_defs split: option.splits if_splits sum.splits prod.splits list.splits
       dest: set_splice_first [THEN subsetD] intro!: splice_first_keeps)

lemma dl_line_other:
  "disconnectLine (Some m) l s = Inr s' \<Longrightarrow> k \<noteq> l \<Longrightarrow> lineobjs s' k = lineobjs s k"
  by (auto simp: dl_defs split: option.splits if_splits sum.splits prod.splits list.splits)

lemma dl_lname:
  "disconnectLine (Some m) l s = Inr s' \<Longrightarrow> lname (lineobjs s' k) = lname (lineobjs s k)"
  by (auto simp: dl_defs split: option.splits if_splits sum.splits prod.splits list.splits)

lemma dl_next:
  "disconnectLine (Some m) l s = Inr s' \<Longrightarrow> next_id s' = next_id s \<and> next_ref s \<le> next_ref s'"
  by (auto simp: dl_defs split: option.splits if_splits sum.splits prod.splits list.splits)

lemma dl_lmetadata:
  "disconnectLine (Some m) l s = Inr s' \<Longrightarrow> lmetadata (lineobjs s l) = Some lmd \<Longrightarrow> points lmd = [a, b] \<Longrightarrow>
   \<exists>lmd' a' b'. lmetadata (lineobjs s' l) = Some lmd' \<and> points lmd' = [a', b']
     \<and> (lfrom lmd' = None \<and> next_ref s \<le> a' \<and> a' < next_ref s'
          \<or> lfrom lmd' = lfrom lmd \<and> lfrom lmd \<noteq> Some m \<and> a' = a)
     \<and> (lto lmd' = None \<and> next_ref s \<le> b' \<and> b' < next_ref s'
          \<or> lto lmd' = lto lmd \<and> lto lmd \<noteq> Some m \<and> b' = b)"
  by (auto simp: dl_defs split: option.splits if_splits sum.splits prod.splits list.splits)

lemma dl_has_metadata:
  "disconnectLine (Some m) l s = Inr s' \<Longrightarrow>
   (metadata (meshes s' k) \<noteq> None) = (metadata (meshes s k) \<noteq> None)"
  using dl_metadata [of m l s s'] dl_mesh_other [of m l s s' k] by (cases "k = m") auto

lemma dl_has_lmetadata:
  "disconnectLine (Some m) l s = Inr s' \<Longrightarrow>
   (lmetadata (lineobjs s' k) \<noteq> None) = (lmetadata (lineobjs s k) \<noteq> None)"
  by (auto simp: dl_defs split: option.splits if_splits sum.splits prod.splits list.splits)

lemma dl_lines_subset:
  "disconnectLine (Some m) l s = Inr s' \<Longrightarrow> metadata (meshes s' k) = Some mmd' \<Longrightarrow>
   \<exists>mmd. metadata (meshes s k) = Some mmd \<and> set (lines mmd') \<subseteq> set (lines mmd)"
  using dl_metadata [of m l s s'] dl_mesh_other [of m l s s' k] by (cases "k = m") auto

lemma disconnectLine_wf_mesh:
  assumes d: "disconnectLine (Some m) l s = Inr s'" and w: "wf_mesh s"
  shows "wf_mesh s'"
  unfolding wf_mesh_def
proof (intro conjI allI impI)
  fix k assume "metadata (meshes s' k) \<noteq> None"
  then have "metadata (meshes s k) \<noteq> None" using dl_has_metadata [OF d] by simp
  with w have "k < next_ref s \<and> position (meshes s k) < next_ref s" by (simp add: wf_mesh_def)
  then show "k < next_ref s'" "position (meshes s' k) < next_ref s'"
    using dl_next [OF d] dl_position [OF d] by auto
next
  fix k k'
  assume "metadata (meshes s' k) \<noteq> None \<and> metadata (meshes s' k') \<noteq> None
          \<and> position (meshes s' k) = position (meshes s' k')"
  then have "metadata (meshes s k) \<noteq> None \<and> metadata (meshes s k') \<noteq> None
          \<and> position (meshes s k) = position (meshes s k')"
    using dl_has_metadata [OF d] dl_position [OF d] by simp
  with w show "k = k'" unfolding wf_mesh_def by blast
next
  fix k mmd' x
  assume a: "metadata (meshes s' k) = Some mmd' \<and> x \<in> set (lines mmd')"
  with dl_lines_subset [OF d] obtain mmd where "metadata (meshes s k) = Some mmd" "x \<in> set (lines mmd)"
    by blast
  with w have "lmetadata (lineobjs s x) \<noteq> None" unfolding wf_mesh_def by blast
  then show "lmetadata (lineobjs s' x) \<noteq> None" using dl_has_lmetadata [OF d] by simp
qed

lemma dl_line_step:
  assumes d: "disconnectLine (Some m) l s = Inr s'" and w: "wf_line s"
    and k: "lmetadata (lineobjs s' k) = Some lmd'"
  shows "\<exists>lmd a b a' b'. lmetadata (lineobjs s k) = Some lmd \<and> points lmd = [a, b] \<and> points lmd' = [a', b']
     \<and> (lfrom lmd' = None \<and> next_ref s \<le> a' \<and> a' < next_ref s'
          \<or> lfrom lmd' = lfrom lmd \<and> (k = l \<longrightarrow> lfrom lmd \<noteq> Some m) \<and> a' = a)
     \<and> (lto lmd' = None \<and> next_ref s \<le> b' \<and> b' < next_ref s'
          \<or> lto lmd' = lto lmd \<and> (k = l \<longrightarrow> lto lmd \<noteq> Some m) \<and> b' = b)"
proof -
  from k dl_has_lmetadata [OF d, of k] obtain lmd where lmd: "lmetadata (lineobjs s k) = Some lmd" by auto
  with wf_line_points [OF w] obtain a b where ab: "points lmd = [a, b]" by blast
  show ?thesis
  proof (cases "k = l")
    case True
    with dl_lmetadata [OF d _ ab] lmd k ab show ?thesis by auto
  next
    case False
    with dl_line_other [OF d] lmd k ab show ?thesis by auto
  qed
qed

lemma disconnectLine_wf_line:
  assumes d: "disconnectLine (Some m) l s = Inr s'" and w: "wf_line s"
  shows "wf_line s'"
  unfolding wf_line_def
proof (intro conjI allI impI)
  fix k lmd' assume k: "lmetadata (lineobjs s' k) = Some lmd'"
  from dl_line_step [OF d w k] obtain lmd a b a' b' where
    *: "lmetadata (lineobjs s k) = Some lmd" "points lmd = [a, b]" "points lmd' = [a', b']"
       "a' < next_ref s' \<or> a' = a" "b' < next_ref s' \<or> b' = b" by blast
  from wf_line_lt [OF w *(1)] wf_line_points [OF w *(1)] *(2)
  have **: "k < next_ref s" "lname (lineobjs s k) < next_id s" "a < next_ref s" "b < next_ref s"
    by auto
  show "k < next_ref s'" using ** dl_next [OF d] by simp
  show "lname (lineobjs s' k) < next_id s'" using ** dl_next [OF d] dl_lname [OF d] by simp
  show "\<exists>a b. points lmd' = [a, b] \<and> a < next_ref s' \<and> b < next_ref s'"
    using * ** dl_next [OF d] by auto
next
  fix k k'
  assume "lmetadata (lineobjs s' k) \<noteq> None \<and> lmetadata (lineobjs s' k') \<noteq> None
        \<and> lname (lineobjs s' k) = lname (lineobjs s' k')"
  then have "lmetadata (lineobjs s k) \<noteq> None \<and> lmetadata (lineobjs s k') \<noteq> None
        \<and> lname (lineobjs s k) = lname (lineobjs s k')"
    using dl_has_lmetadata [OF d] dl_lname [OF d] by simp
  with w show "k = k'" unfolding wf_line_def by blast
qed

lemma dl_from_kept:
  assumes "disconnectLine (Some m) l s = Inr s'" and "wf_line s"
    and "lmetadata (lineobjs s' k) = Some lmd'" and "lfrom lmd' = Some p"
  shows "\<exists>lmd. lmetadata (lineobjs s k) = Some lmd \<and> lfrom lmd = Some p \<and> (k = l \<longrightarrow> p \<noteq> m)
           \<and> points lmd' ! 0 = points lmd ! 0"
  using dl_line_step [OF assms(1,2,3)] assms(4) by fastforce

lemma dl_to_kept:
  assumes "disconnectLine (Some m) l s = Inr s'" and "wf_line s"
    and "lmetadata (lineobjs s' k) = Some lmd'" and "lto lmd' = Some p"
  shows "\<exists>lmd. lmetadata (lineobjs s k) = Some lmd \<and> lto lmd = Some p \<and> (k = l \<longrightarrow> p \<noteq> m)
           \<and> points lmd' ! 1 = points lmd ! 1"
  using dl_line_step [OF assms(1,2,3)] assms(4) by fastforce

lemma dl_old_point0:
  assumes "disconnectLine (Some m) l s = Inr s'" and "wf_line s"
    and "lmetadata (lineobjs s' k) = Some lmd'" and "points lmd' ! 0 < next_ref s"
  shows "\<exists>lmd. lmetadata (lineobjs s k) = Some lmd \<and> lfrom lmd' = lfrom lmd
           \<and> points lmd' ! 0 = points lmd ! 0"
  using dl_line_step [OF assms(1,2,3)] assms(4) by fastforce

lemma dl_old_point1:
  assumes "disconnectLine (Some m) l s = Inr s'" and "wf_line s"
    and "lmetadata (lineobjs s' k) = Some lmd'" and "points lmd' ! 1 < next_ref s"
  shows "\<exists>lmd. lmetadata (lineobjs s k) = Some lmd \<and> lto lmd' = lto lmd
           \<and> points lmd' ! 1 = points lmd ! 1"
  using dl_line_step [OF assms(1,2,3)] assms(4) by fastforce

lemma disconnectLine_wf_bound:
  assumes d: "disconnectLine (Some m) l s = Inr s'" and wl: "wf_line s" and w: "wf_bound s"
  shows "wf_bound s'"
proof -
  have keep: "\<exists>mmd'. metadata (meshes s' p) = Some mmd' \<and> k \<in> set (lines mmd')"
    if km: "metadata (meshes s p) = Some mmd" "k \<in> set (lines mmd)"
      and kl: "lmetadata (lineobjs s k) \<noteq> None" and ne: "k = l \<longrightarrow> p \<noteq> m" for p k mmd
  proof (cases "p = m")
    case False
    with dl_mesh_other [OF d, of p] km show ?thesis by simp
  next
    case True
    with ne have "k \<noteq> l" by blast
    moreover have "lmetadata (lineobjs s l) \<noteq> None"
      using d by (auto simp: disconnectLine_def split: option.splits)
    ultimately have "lname (lineobjs s k) \<noteq> lname (lineobjs s l)"
      using wf_line_inj [OF wl kl] by blast
    with dl_metadata [OF d] km True show ?thesis by auto
  qed
  show ?thesis
    unfolding wf_bound_def
  proof (intro conjI allI impI)
    fix k lmd' p assume a: "lmetadata (lineobjs s' k) = Some lmd' \<and> lfrom lmd' = Some p"
    from dl_from_kept [OF d wl a [THEN conjunct1] a [THEN conjunct2]] obtain lmd where
      *: "lmetadata (lineobjs s k) = Some lmd" "lfrom lmd = Some p" "k = l \<longrightarrow> p \<noteq> m"
         "points lmd' ! 0 = points lmd ! 0" by blast
    from wf_bound_from [OF w *(1,2)] obtain mmd where
      mmd: "metadata (meshes s p) = Some mmd" "k \<in> set (lines mmd)" "points lmd ! 0 = position (meshes s p)"
      by blast
    from keep [OF mmd(1,2) _ *(3)] *(1)
    show "\<exists>mmd. metadata (meshes s' p) = Some mmd \<and> k \<in> set (lines mmd)" by simp
    show "points lmd' ! 0 = position (meshes s' p)"
      using mmd(3) * dl_position [OF d] by simp
  next
    fix k lmd' p assume a: "lmetadata (lineobjs s' k) = Some lmd' \<and> lto lmd' = Some p"
    from dl_to_kept [OF d wl a [THEN conjunct1] a [THEN conjunct2]] obtain lmd where
      *: "lmetadata (lineobjs s k) = Some lmd" "lto lmd = Some p" "k = l \<longrightarrow> p \<noteq> m"
         "points lmd' ! 1 = points lmd ! 1" by blast
    from wf_bound_to [OF w *(1,2)] obtain mmd where
      mmd: "metadata (meshes s p) = Some mmd" "k \<in> set (lines mmd)" "points lmd ! 1 = position (meshes s p)"
      by blast
    from keep [OF mmd(1,2) _ *(3)] *(1)
    show "\<exists>mmd. metadata (meshes s' p) = Some mmd \<and> k \<in> set (lines mmd)" by simp
    show "points lmd' ! 1 = position (meshes s' p)"
      using mmd(3) * dl_position [OF d] by simp
  qed
qed

lemma disconnectLine_wf_alias:
  assumes d: "disconnectLine (Some m) l s = Inr s'" and wm: "wf_mesh s" and wl: "wf_line s"
    and w: "wf_alias s"
  shows "wf_alias s'"
  unfolding wf_alias_def
proof (intro conjI allI impI)
  fix k lmd' p
  assume a: "lmetadata (lineobjs s' k) = Some lmd' \<and> metadata (meshes s' p) \<noteq> None
        \<and> points lmd' ! 0 = position (meshes s' p)"
  then have p: "metadata (meshes s p) \<noteq> None" using dl_has_metadata [OF d] by simp
  from wf_mesh_lt [OF wm p] a have lt: "points lmd' ! 0 < next_ref s" using dl_position [OF d] by simp
  from dl_old_point0 [OF d wl a [THEN conjunct1] lt] obtain lmd where
    *: "lmetadata (lineobjs s k) = Some lmd" "lfrom lmd' = lfrom lmd" "points lmd' ! 0 = points lmd ! 0"
    by blast
  with a have "points lmd ! 0 = position (meshes s p)" using dl_position [OF d] by simp
  from wf_alias_from [OF w *(1) p this] *(2) show "lfrom lmd' = Some p" by simp
next
  fix k lmd' p
  assume a: "lmetadata (lineobjs s' k) = Some lmd' \<and> metadata (meshes s' p) \<noteq> None
        \<and> points lmd' ! 1 = position (meshes s' p)"
  then have p: "metadata (meshes s p) \<noteq> None" using dl_has_metadata [OF d] by simp
  from wf_mesh_lt [OF wm p] a have lt: "points lmd' ! 1 < next_ref s" using dl_position [OF d] by simp
  from dl_old_point1 [OF d wl a [THEN conjunct1] lt] obtain lmd where
    *: "lmetadata (lineobjs s k) = Some lmd" "lto lmd' = lto lmd" "points lmd' ! 1 = points lmd ! 1"
    by blast
  with a have "points lmd ! 1 = position (meshes s p)" using dl_position [OF d] by simp
  from wf_alias_to [OF w *(1) p this] *(2) show "lto lmd' = Some p" by simp
qed

lemma disconnectLine_wf:
  "disconnectLine (Some m) l s = Inr s' \<Longrightarrow> wf_scene s \<Longrightarrow> wf_scene s'"
  unfolding wf_scene_def
  using disconnectLine_wf_mesh disconnectLine_wf_line disconnectLine_wf_bound disconnectLine_wf_alias
  by blast

lemma wf_same_shape:
  assumes "\<And>k. metadata (meshes s' k) = metadata (meshes s k)"
    and "\<And>k. position (meshes s' k) = position (meshes s k)"
    and "\<And>k. lmetadata (lineobjs s' k) = lmetadata (lineobjs s k)"
    and "\<And>k. lname (lineobjs s' k) = lname (lineobjs s k)"
    and "next_ref s' = next_ref s" and "next_id s' = next_id s"
  shows "wf_scene s' = wf_scene s"
  by (simp add: wf_scene_def wf_mesh_def wf_line_def wf_bound_def wf_alias_def assms)

lemma updateLine_effect:
  assumes "updateLine l s = Inr s'"
  shows "vectors s' = vectors s \<and> meshes s' = meshes s \<and> next_ref s' = next_ref s
       \<and> next_id s' = next_id s \<and> scene_meshes s' = scene_meshes s
       \<and> (\<forall>k. lmetadata (lineobjs s' k) = lmetadata (lineobjs s k)
              \<and> lname (lineobjs s' k) = lname (lineobjs s k))
       \<and> (\<forall>k. (vertices (lineobjs s' k) = None) = (vertices (lineobjs s k) = None))
       \<and> (\<forall>k. k \<noteq> l \<longrightarrow> lineobjs s' k = lineobjs s k)
       \<and> (\<forall>lmd. lmetadata (lineobjs s l) = Some lmd \<longrightarrow>
              vertices (lineobjs s' l) = Some (map (vectors s) (points lmd)))"
  using assms by (auto simp: updateLine_def split: option.splits if_splits)

lemma updateLine_wf: "updateLine l s = Inr s' \<Longrightarrow> wf_scene s \<Longrightarrow> wf_scene s'"
  using updateLine_effect [of l s s'] wf_same_shape [of s' s] by simp


lemma forEach_wf:
  assumes "\<And>x s s'. f x s = Inr s' \<Longrightarrow> wf_scene s \<Longrightarrow> wf_scene s'"
  shows "forEach f xs s = Inr s' \<Longrightarrow> wf_scene s \<Longrightarrow> wf_scene s'"
proof (induction xs arbitrary: s)
  case Nil
  then show ?case by simp
next
  case (Cons x xs)
  from Cons.prems(1) obtain s1 where s1: "f x s = Inr s1" "forEach f xs s1 = Inr s'"
    by (auto split: sum.splits)
  from assms [OF s1(1) Cons.prems(2)] have "wf_scene s1" .
  from Cons.IH [OF s1(2) this] show ?case .
qed

lemma forEach_updateLine_effect:
  "forEach updateLine xs s = Inr s' \<Longrightarrow>
     vectors s' = vectors s \<and> meshes s' = meshes s \<and> next_ref s' = next_ref s
       \<and> next_id s' = next_id s \<and> scene_meshes s' = scene_meshes s
       \<and> (\<forall>k. lmetadata (lineobjs s' k) = lmetadata (lineobjs s k)
              \<and> lname (lineobjs s' k) = lname (lineobjs s k))
       \<and> (\<forall>k. (vertices (lineobjs s' k) = None) = (vertices (lineobjs s k) = None))"
proof (induction xs arbitrary: s)
  case Nil
  then show ?case by simp
next
  case (Cons x xs)
  from Cons.prems(1) obtain s1 where s1: "updateLine x s = Inr s1" "forEach updateLine xs s1 = Inr s'"
    by (auto split: sum.splits)
  from updateLine_effect [OF s1(1)] Cons.IH [OF s1(2)] show ?case by simp
qed


lemma move_effect:
  assumes "move m diff s = Inr s'"
  shows "meshes s' = meshes s \<and> next_ref s' = next_ref s \<and> next_id s' = next_id s
       \<and> scene_meshes s' = scene_meshes s
       \<and> (\<forall>k. lmetadata (lineobjs s' k) = lmetadata (lineobjs s k)
              \<and> lname (lineobjs s' k) = lname (lineobjs s k))
       \<and> (\<forall>k. (vertices (lineobjs s' k) = None) = (vertices (lineobjs s k) = None))
       \<and> vectors s' = (vectors s)(position (meshes s m) :=
            addInPlace (vectors s (position (meshes s m)))
              \<lparr>vx = (case px diff of None \<Rightarrow> 0 | Some v \<Rightarrow> v),
               vy = (case py diff of None \<Rightarrow> 0 | Some v \<Rightarrow> v),
               vz = (case pz diff of None \<Rightarrow> 0 | Some v \<Rightarrow> v)\<rparr>)"
  using assms
  by (auto simp: move_def updateLinesOnMesh_def Let_def split: option.splits if_splits
      dest!: forEach_updateLine_effect)

lemma move_wf: "move m diff s = Inr s' \<Longrightarrow> wf_scene s \<Longrightarrow> wf_scene s'"
  using move_effect [of m diff s s'] wf_same_shape [of s' s] by simp

lemma moveTo_wf: "moveTo m pt s = Inr s' \<Longrightarrow> wf_scene s \<Longrightarrow> wf_scene s'"
  by (auto simp: moveTo_def Let_def dest: move_wf)

lemma dispose_wf: "wf_scene (dispose a s) = wf_scene s"
  by (rule wf_same_shape) (simp_all add: dispose_def)

lemma dispose_line_wf: "wf_scene (dispose_line l s) = wf_scene s"
  by (rule wf_same_shape) (simp_all add: dispose_line_def)

lemma disconnectLine_opt_wf: "disconnectLine mo l s = Inr s' \<Longrightarrow> wf_scene s \<Longrightarrow> wf_scene s'"
proof (cases mo)
  case None
  then show "disconnectLine mo l s = Inr s' \<Longrightarrow> wf_scene s'" by (simp add: disconnectLine_def)
next
  case (Some m)
  then show "disconnectLine mo l s = Inr s' \<Longrightarrow> wf_scene s \<Longrightarrow> wf_scene s'"
    using disconnectLine_wf by simp
qed

lemma disconnectLinesOnMesh_wf: "disconnectLinesOnMesh m s = Inr s' \<Longrightarrow> wf_scene s \<Longrightarrow> wf_scene s'"
  by (auto simp: disconnectLinesOnMesh_def split: option.splits
      elim!: forEach_wf [rotated 1] dest: disconnectLine_wf)

lemma removeMesh_wf: "removeMesh m s = Inr s' \<Longrightarrow> wf_scene s \<Longrightarrow> wf_scene s'"
  by (auto simp: removeMesh_def dispose_wf split: sum.splits dest: disconnectLinesOnMesh_wf)

lemma removeLine_wf: "removeLine l s = Inr s' \<Longrightarrow> wf_scene s \<Longrightarrow> wf_scene s'"
  by (auto simp: removeLine_def dispose_line_wf split: option.splits sum.splits if_splits
      dest: disconnectLine_opt_wf)

lemma removeLinesOnMesh_wf: "removeLinesOnMesh m s = Inr s' \<Longrightarrow> wf_scene s \<Longrightarrow> wf_scene s'"
  by (auto simp: removeLinesOnMesh_def split: option.splits
      elim!: forEach_wf [rotated 1] dest: removeLine_wf)

lemma addMesh_wf:
  assumes a: "addMesh type s = Inr (r, s')" and w: "wf_scene s"
  shows "wf_scene s'"
proof (cases "type = ''box'' \<or> type = ''sphere''")
  case False
  with a have "s' = s" by (simp add: addMesh_def)
  with w show ?thesis by simp
next
  case True
  let ?a = "next_ref s"
  have m: "meshes s' = (meshes s)(?a := \<lparr>name = next_id s, position = Suc ?a, parent = None,
                                         metadata = Some \<lparr>mtype = type, lines = []\<rparr>\<rparr>)"
    and l: "lineobjs s' = lineobjs s" and n: "next_ref s' = Suc (Suc ?a)" "next_id s' = Suc (next_id s)"
    using a True by (auto simp: addMesh_def RandomId_def CreateMesh_def Let_def)
  from w have wm: "wf_mesh s" and wl: "wf_line s" and wb: "wf_bound s" and wa: "wf_alias s"
    by (simp_all add: wf_scene_def)
  have fresh: "metadata (meshes s ?a) = None"
    using wf_mesh_lt [OF wm, of ?a] by (cases "metadata (meshes s ?a)") auto
  have 1: "wf_mesh s'"
    unfolding wf_mesh_def
  proof (intro conjI allI impI)
    fix k assume "metadata (meshes s' k) \<noteq> None"
    then show "k < next_ref s'" "position (meshes s' k) < next_ref s'"
      using wf_mesh_lt [OF wm, of k] by (auto simp: m n split: if_splits)
  next
    fix k k'
    assume "metadata (meshes s' k) \<noteq> None \<and> metadata (meshes s' k') \<noteq> None
          \<and> position (meshes s' k) = position (meshes s' k')"
    then show "k = k'"
      using wf_mesh_lt [OF wm, of k] wf_mesh_lt [OF wm, of k'] wf_mesh_inj [OF wm, of k k']
      by (auto simp: m split: if_splits)
  next
    fix k mmd x assume "metadata (meshes s' k) = Some mmd \<and> x \<in> set (lines mmd)"
    then show "lmetadata (lineobjs s' x) \<noteq> None"
      using wf_mesh_lines [OF wm, of k mmd x] by (auto simp: m l split: if_splits)
  qed
  have 2: "wf_line s'"
    unfolding wf_line_def
  proof (intro conjI allI impI)
    fix k lmd assume k: "lmetadata (lineobjs s' k) = Some lmd"
    then show "k < next_ref s'" "lname (lineobjs s' k) < next_id s'"
        "\<exists>a b. points lmd = [a, b] \<and> a < next_ref s' \<and> b < next_ref s'"
      using wf_line_lt [OF wl, of k lmd] wf_line_points [OF wl, of k lmd] by (auto simp: l n)
  next
    fix k k'
    assume "lmetadata (lineobjs s' k) \<noteq> None \<and> lmetadata (lineobjs s' k') \<noteq> None
        \<and> lname (lineobjs s' k) = lname (lineobjs s' k')"
    then show "k = k'" using wf_line_inj [OF wl, of k k'] by (simp add: l)
  qed
  have 3: "wf_bound s'"
    unfolding wf_bound_def
  proof (intro conjI allI impI)
    fix k lmd p assume "lmetadata (lineobjs s' k) = Some lmd \<and> lfrom lmd = Some p"
    then show "\<exists>mmd. metadata (meshes s' p) = Some mmd \<and> k \<in> set (lines mmd)"
        "points lmd ! 0 = position (meshes s' p)"
      using wf_bound_from [OF wb, of k lmd p] fresh by (auto simp: l m)
  next
    fix k lmd p assume "lmetadata (lineobjs s' k) = Some lmd \<and> lto lmd = Some p"
    then show "\<exists>mmd. metadata (meshes s' p) = Some mmd \<and> k \<in> set (lines mmd)"
        "points lmd ! 1 = position (meshes s' p)"
      using wf_bound_to [OF wb, of k lmd p] fresh by (auto simp: l m)
  qed
  have 4: "wf_alias s'"
    unfolding wf_alias_def
  proof (intro conjI allI impI)
    fix k lmd p
    assume "lmetadata (lineobjs s' k) = Some lmd \<and> metadata (meshes s' p) \<noteq> None
        \<and> points lmd ! 0 = position (meshes s' p)"
    then show "lfrom lmd = Some p"
      using wf_alias_from [OF wa, of k lmd p] wf_line_points [OF wl, of k lmd]
      by (auto simp: l m split: if_splits)
  next
    fix k lmd p
    assume "lmetadata (lineobjs s' k) = Some lmd \<and> metadata (meshes s' p) \<noteq> None
        \<and> points lmd ! 1 = position (meshes s' p)"
    then show "lto lmd = Some p"
      using wf_alias_to [OF wa, of k lmd p] wf_line_points [OF wl, of k lmd]
      by (auto simp: l m split: if_splits)
  qed
  from 1 2 3 4 show ?thesis by (simp add: wf_scene_def)
qed

lemmas al_defs = addLine_def RandomId_def CreateLines_def push_line_def Let_def

lemma al_position:
  "addLine m1 m2 s = Inr (a, s') \<Longrightarrow> position (meshes s' k) = position (meshes s k)"
  by (auto simp: al_defs split: option.splits if_splits)

lemma al_ends:
  "addLine m1 m2 s = Inr (a, s') \<Longrightarrow>
   metadata (meshes s m1) \<noteq> None \<and> metadata (meshes s m2) \<noteq> None"
  by (auto simp: al_defs split: option.splits if_splits)

lemma al_metadata:
  "addLine m1 m2 s = Inr (a, s') \<Longrightarrow>
   (case metadata (meshes s k) of
      None \<Rightarrow> metadata (meshes s' k) = None
    | Some mmd \<Rightarrow> (\<exists>mmd'. metadata (meshes s' k) = Some mmd'
         \<and> set (lines mmd) \<subseteq> set (lines mmd') \<and> set (lines mmd') \<subseteq> insert a (set (lines mmd))
         \<and> (k = m1 \<or> k = m2 \<longrightarrow> a \<in> set (lines mmd'))))"
  by (auto simp: al_defs split: option.splits if_splits)

lemma al_line:
  assumes "addLine m1 m2 s = Inr (a, s')"
  shows "a = next_ref s" and "next_ref s' = Suc (next_ref s)" and "next_id s' = Suc (next_id s)"
    and "\<And>k. k \<noteq> a \<Longrightarrow> lineobjs s' k = lineobjs s k"
    and "lname (lineobjs s' a) = next_id s"
    and "lmetadata (lineobjs s' a) =
       Some \<lparr>points = [position (meshes s m1), position (meshes s m2)], lfrom = Some m1, lto = Some m2\<rparr>"
    and "vertices (lineobjs s' a) \<noteq> None"
  using assms by (auto simp: al_defs split: option.splits if_splits)

lemma addLine_wf:
  assumes d: "addLine m1 m2 s = Inr (a, s')" and w: "wf_scene s"
  shows "wf_scene s'"
proof -
  from w have wm: "wf_mesh s" and wl: "wf_line s" and wb: "wf_bound s" and wa: "wf_alias s"
    by (simp_all add: wf_scene_def)
  note al = al_line [OF d]
  note ends = al_ends [OF d]
  have fresh: "lmetadata (lineobjs s a) = None"
    using wf_line_lt [OF wl, of a] al by (cases "lmetadata (lineobjs s a)") auto
  have has: "(metadata (meshes s' k) \<noteq> None) = (metadata (meshes s k) \<noteq> None)" for k
    using al_metadata [OF d, of k] by (auto split: option.splits)
  have grow: "\<exists>mmd'. metadata (meshes s' k) = Some mmd' \<and> x \<in> set (lines mmd')"
    if "metadata (meshes s k) = Some mmd" "x \<in> set (lines mmd)" for k mmd x
    using al_metadata [OF d, of k] that by auto
  have old: "\<exists>lmd. lmetadata (lineobjs s' k) = Some lmd" if "lmetadata (lineobjs s k) \<noteq> None" for k
    using that al by (cases "k = a") auto
  have 1: "wf_mesh s'"
    unfolding wf_mesh_def
  proof (intro conjI allI impI)
    fix k assume "metadata (meshes s' k) \<noteq> None"
    then show "k < next_ref s'" "position (meshes s' k) < next_ref s'"
      using wf_mesh_lt [OF wm, of k] has [of k] al al_position [OF d, of k] by auto
  next
    fix k k'
    assume "metadata (meshes s' k) \<noteq> None \<and> metadata (meshes s' k') \<noteq> None
          \<and> position (meshes s' k) = position (meshes s' k')"
    then show "k = k'"
      using wf_mesh_inj [OF wm, of k k'] has al_position [OF d] by simp
  next
    fix k mmd' x assume a: "metadata (meshes s' k) = Some mmd' \<and> x \<in> set (lines mmd')"
    show "lmetadata (lineobjs s' x) \<noteq> None"
    proof (cases "x = a")
      case True
      then show ?thesis using al by simp
    next
      case False
      with a al_metadata [OF d, of k] obtain mmd where
        "metadata (meshes s k) = Some mmd" "x \<in> set (lines mmd)"
        by (auto split: option.splits)
      from wf_mesh_lines [OF wm this] old [of x] show ?thesis by auto
    qed
  qed
  have 2: "wf_line s'"
    unfolding wf_line_def
  proof (intro conjI allI impI)
    fix k lmd assume k: "lmetadata (lineobjs s' k) = Some lmd"
    show "k < next_ref s'" "lname (lineobjs s' k) < next_id s'"
        "\<exists>x y. points lmd = [x, y] \<and> x < next_ref s' \<and> y < next_ref s'"
      using k wf_line_lt [OF wl, of k lmd] wf_line_points [OF wl, of k lmd] al
        wf_mesh_lt [OF wm, of m1] wf_mesh_lt [OF wm, of m2] ends
      by (cases "k = a"; auto)+
  next
    fix k k'
    assume "lmetadata (lineobjs s' k) \<noteq> None \<and> lmetadata (lineobjs s' k') \<noteq> None
        \<and> lname (lineobjs s' k) = lname (lineobjs s' k')"
    then show "k = k'"
      using wf_line_inj [OF wl, of k k'] al wf_line_lt [OF wl, of k] wf_line_lt [OF wl, of k']
      by (cases "k = a"; cases "k' = a"; auto)
  qed
  have 3: "wf_bound s'"
    unfolding wf_bound_def
  proof (intro conjI allI impI)
    fix k lmd p assume a: "lmetadata (lineobjs s' k) = Some lmd \<and> lfrom lmd = Some p"
    have "(\<exists>mmd. metadata (meshes s' p) = Some mmd \<and> k \<in> set (lines mmd))
        \<and> points lmd ! 0 = position (meshes s' p)"
    proof (cases "k = a")
      case True
      with a al have "p = m1" "points lmd ! 0 = position (meshes s m1)" by auto
      with al_metadata [OF d, of m1] ends al_position [OF d, of m1] True show ?thesis by auto
    next
      case False
      with a al have "lmetadata (lineobjs s k) = Some lmd" by simp
      from wf_bound_from [OF wb this] a grow [of p _ k] al_position [OF d, of p]
      show ?thesis by auto
    qed
    then show "\<exists>mmd. metadata (meshes s' p) = Some mmd \<and> k \<in> set (lines mmd)"
      and "points lmd ! 0 = position (meshes s' p)" by simp_all
  next
    fix k lmd p assume a: "lmetadata (lineobjs s' k) = Some lmd \<and> lto lmd = Some p"
    have "(\<exists>mmd. metadata (meshes s' p) = Some mmd \<and> k \<in> set (lines mmd))
        \<and> points lmd ! 1 = position (meshes s' p)"
    proof (cases "k = a")
      case True
      with a al have "p = m2" "points lmd ! 1 = position (meshes s m2)" by auto
      with al_metadata [OF d, of m2] ends al_position [OF d, of m2] True show ?thesis by auto
    next
      case False
      with a al have "lmetadata (lineobjs s k) = Some lmd" by simp
      from wf_bound_to [OF wb this] a grow [of p _ k] al_position [OF d, of p]
      show ?thesis by auto
    qed
    then show "\<exists>mmd. metadata (meshes s' p) = Some mmd \<and> k \<in> set (lines mmd)"
      and "points lmd ! 1 = position (meshes s' p)" by simp_all
  qed
  have 4: "wf_alias s'"
    unfolding wf_alias_def
  proof (intro conjI allI impI)
    fix k lmd p
    assume a: "lmetadata (lineobjs s' k) = Some lmd \<and> metadata (meshes s' p) \<noteq> None
        \<and> points lmd ! 0 = position (meshes s' p)"
    then have p: "metadata (meshes s p) \<noteq> None" using has by simp
    show "lfrom lmd = Some p"
    proof (cases "k = a")
      case True
      with a al have "lfrom lmd = Some m1" "position (meshes s m1) = position (meshes s p)"
        using al_position [OF d, of p] by auto
      with wf_mesh_inj [OF wm _ p, of m1] ends show ?thesis by simp
    next
      case False
      with a al have "lmetadata (lineobjs s k) = Some lmd" by simp
      from wf_alias_from [OF wa this p] a al_position [OF d, of p] show ?thesis by simp
    qed
  next
    fix k lmd p
    assume a: "lmetadata (lineobjs s' k) = Some lmd \<and> metadata (meshes s' p) \<noteq> None
        \<and> points lmd ! 1 = position (meshes s' p)"
    then have p: "metadata (meshes s p) \<noteq> None" using has by simp
    show "lto lmd = Some p"
    proof (cases "k = a")
      case True
      with a al have "lto lmd = Some m2" "position (meshes s m2) = position (meshes s p)"
        using al_position [OF d, of p] by auto
      with wf_mesh_inj [OF wm _ p, of m2] ends show ?thesis by simp
    next
      case False
      with a al have "lmetadata (lineobjs s k) = Some lmd" by simp
      from wf_alias_to [OF wa this p] a al_position [OF d, of p] show ?thesis by simp
    qed
  qed
  from 1 2 3 4 show ?thesis by (simp add: wf_scene_def)
qed

lemmas cl_defs = connectLine_def updateLine_def Let_def set_first_def set_last_def

lemma cl_position:
  "connectLine m l type s = Inr s' \<Longrightarrow> position (meshes s' k) = position (meshes s k)"
  by (auto simp: cl_defs split: option.splits if_splits)

lemma cl_mesh_other:
  "connectLine m l type s = Inr s' \<Longrightarrow> k \<noteq> m \<Longrightarrow> meshes s' k = meshes s k"
  by (auto simp: cl_defs split: option.splits if_splits)

lemma cl_metadata:
  "connectLine m l type s = Inr s' \<Longrightarrow>
   \<exists>mmd mmd'. metadata (meshes s m) = Some mmd \<and> metadata (meshes s' m) = Some mmd'
       \<and> set (lines mmd) \<subseteq> set (lines mmd') \<and> set (lines mmd') \<subseteq> insert l (set (lines mmd))
       \<and> (l \<in> set (lines mmd') \<or> (\<exists>x\<in>set (lines mmd). lname (lineobjs s x) = lname (lineobjs s l)))"
  by (auto simp: cl_defs find_None_iff split: option.splits if_splits)

lemma cl_line:
  assumes "connectLine m l type s = Inr s'"
  shows "\<And>k. k \<noteq> l \<Longrightarrow> lineobjs s' k = lineobjs s k"
    and "\<And>k. lname (lineobjs s' k) = lname (lineobjs s k)"
    and "next_ref s' = next_ref s" and "next_id s' = next_id s"
    and "vectors s' = vectors s" and "scene_meshes s' = scene_meshes s"
  using assms by (auto simp: cl_defs split: option.splits if_splits)

lemma cl_lmetadata:
  "connectLine m l type s = Inr s' \<Longrightarrow>
   \<exists>lmd. lmetadata (lineobjs s l) = Some lmd
     \<and> (\<forall>a b. points lmd = [a, b] \<longrightarrow>
          lmetadata (lineobjs s' l) =
            Some (if type = From
                  then \<lparr>points = [position (meshes s m), b], lfrom = Some m, lto = lto lmd\<rparr>
                  else \<lparr>points = [a, position (meshes s m)], lfrom = lfrom lmd, lto = Some m\<rparr>))"
  by (cases type) (auto simp: cl_defs split: option.splits if_splits)

lemma connectLine_wf:
  assumes d: "connectLine m l type s = Inr s'" and w: "wf_scene s"
  shows "wf_scene s'"
proof -
  from w have wm: "wf_mesh s" and wl: "wf_line s" and wb: "wf_bound s" and wa: "wf_alias s"
    by (simp_all add: wf_scene_def)
  note cl = cl_line [OF d]
  note pos = cl_position [OF d]
  from cl_lmetadata [OF d] obtain lmd where lmd: "lmetadata (lineobjs s l) = Some lmd"
    and lmd': "\<And>a b. points lmd = [a, b] \<Longrightarrow> lmetadata (lineobjs s' l) =
            Some (if type = From
                  then \<lparr>points = [position (meshes s m), b], lfrom = Some m, lto = lto lmd\<rparr>
                  else \<lparr>points = [a, position (meshes s m)], lfrom = lfrom lmd, lto = Some m\<rparr>)"
    by blast
  from wf_line_points [OF wl lmd] obtain a b where
    ab: "points lmd = [a, b]" "a < next_ref s" "b < next_ref s" by blast
  note new = lmd' [OF ab(1)]
  from cl_metadata [OF d] obtain mmd mmd' where
    mmd: "metadata (meshes s m) = Some mmd" "metadata (meshes s' m) = Some mmd'"
      "set (lines mmd) \<subseteq> set (lines mmd')" "set (lines mmd') \<subseteq> insert l (set (lines mmd))"
      "l \<in> set (lines mmd') \<or> (\<exists>x\<in>set (lines mmd). lname (lineobjs s x) = lname (lineobjs s l))"
    by blast
  have lin: "l \<in> set (lines mmd')"
  proof (rule disjE [OF mmd(5)])
    assume "\<exists>x\<in>set (lines mmd). lname (lineobjs s x) = lname (lineobjs s l)"
    then obtain x where x: "x \<in> set (lines mmd)" "lname (lineobjs s x) = lname (lineobjs s l)" by blast
    from wf_mesh_lines [OF wm mmd(1) x(1)] lmd wf_line_inj [OF wl _ _ x(2)] have "x = l" by simp
    with x(1) mmd(3) show ?thesis by blast
  qed
  have has: "(metadata (meshes s' k) \<noteq> None) = (metadata (meshes s k) \<noteq> None)" for k
    using cl_mesh_other [OF d, of k] mmd by (cases "k = m") auto
  have hasl: "(lmetadata (lineobjs s' k) \<noteq> None) = (lmetadata (lineobjs s k) \<noteq> None)" for k
    using cl(1) [of k] new lmd by (cases "k = l") auto
  have grow: "\<exists>mmd'. metadata (meshes s' k) = Some mmd' \<and> x \<in> set (lines mmd')"
    if "metadata (meshes s k) = Some mmd0" "x \<in> set (lines mmd0)" for k mmd0 x
    using cl_mesh_other [OF d, of k] mmd that by (cases "k = m") auto
  have mpos: "position (meshes s m) < next_ref s" using wf_mesh_lt [OF wm, of m] mmd by simp
  have 1: "wf_mesh s'"
    unfolding wf_mesh_def
  proof (intro conjI allI impI)
    fix k assume "metadata (meshes s' k) \<noteq> None"
    then show "k < next_ref s'" "position (meshes s' k) < next_ref s'"
      using wf_mesh_lt [OF wm, of k] has [of k] cl pos by auto
  next
    fix k k'
    assume "metadata (meshes s' k) \<noteq> None \<and> metadata (meshes s' k') \<noteq> None
          \<and> position (meshes s' k) = position (meshes s' k')"
    then show "k = k'"
      using wf_mesh_inj [OF wm, of k k'] has pos by simp
  next
    fix k mmd0 x assume a: "metadata (meshes s' k) = Some mmd0 \<and> x \<in> set (lines mmd0)"
    show "lmetadata (lineobjs s' x) \<noteq> None"
    proof (cases "x = l")
      case True
      then show ?thesis using hasl lmd by simp
    next
      case False
      with a mmd cl_mesh_other [OF d, of k] obtain mmd1 where
        "metadata (meshes s k) = Some mmd1" "x \<in> set (lines mmd1)"
        by (cases "k = m") auto
      from wf_mesh_lines [OF wm this] hasl show ?thesis by simp
    qed
  qed
  have 2: "wf_line s'"
    unfolding wf_line_def
  proof (intro conjI allI impI)
    fix k lmd0 assume k: "lmetadata (lineobjs s' k) = Some lmd0"
    show "k < next_ref s'" "lname (lineobjs s' k) < next_id s'"
      using k hasl [of k] wf_line_lt [OF wl, of k] cl by auto
    show "\<exists>x y. points lmd0 = [x, y] \<and> x < next_ref s' \<and> y < next_ref s'"
    proof (cases "k = l")
      case True
      with k new ab mpos cl show ?thesis by (auto split: if_splits)
    next
      case False
      with k cl wf_line_points [OF wl, of k lmd0] show ?thesis by simp
    qed
  next
    fix k k'
    assume "lmetadata (lineobjs s' k) \<noteq> None \<and> lmetadata (lineobjs s' k') \<noteq> None
        \<and> lname (lineobjs s' k) = lname (lineobjs s' k')"
    then show "k = k'"
      using wf_line_inj [OF wl, of k k'] hasl cl by simp
  qed
  have 3: "wf_bound s'"
    unfolding wf_bound_def
  proof (intro conjI allI impI)
    fix k lmd0 p assume a: "lmetadata (lineobjs s' k) = Some lmd0 \<and> lfrom lmd0 = Some p"
    have "(\<exists>mmd. metadata (meshes s' p) = Some mmd \<and> k \<in> set (lines mmd))
        \<and> points lmd0 ! 0 = position (meshes s' p)"
    proof (cases "k = l \<and> type = From")
      case True
      with a new have "p = m" "points lmd0 ! 0 = position (meshes s m)" by auto
      with mmd lin pos True show ?thesis by auto
    next
      case False
      with a new cl(1) [of k] lmd ab have "\<exists>lmd1. lmetadata (lineobjs s k) = Some lmd1
          \<and> lfrom lmd1 = Some p \<and> points lmd1 ! 0 = points lmd0 ! 0"
        by (cases "k = l") auto
      then obtain lmd1 where "lmetadata (lineobjs s k) = Some lmd1" "lfrom lmd1 = Some p"
        "points lmd1 ! 0 = points lmd0 ! 0" by blast
      with wf_bound_from [OF wb this(1,2)] grow [of p _ k] pos show ?thesis by auto
    qed
    then show "\<exists>mmd. metadata (meshes s' p) = Some mmd \<and> k \<in> set (lines mmd)"
      and "points lmd0 ! 0 = position (meshes s' p)" by simp_all
  next
    fix k lmd0 p assume a: "lmetadata (lineobjs s' k) = Some lmd0 \<and> lto lmd0 = Some p"
    have "(\<exists>mmd. metadata (meshes s' p) = Some mmd \<and> k \<in> set (lines mmd))
        \<and> points lmd0 ! 1 = position (meshes s' p)"
    proof (cases "k = l \<and> type = To")
      case True
      with a new have "p = m" "points lmd0 ! 1 = position (meshes s m)" by auto
      with mmd lin pos True show ?thesis by auto
    next
      case False
      with a new cl(1) [of k] lmd ab have "\<exists>lmd1. lmetadata (lineobjs s k) = Some lmd1
          \<and> lto lmd1 = Some p \<and> points lmd1 ! 1 = points lmd0 ! 1"
        by (cases "k = l"; cases type) auto
      then obtain lmd1 where "lmetadata (lineobjs s k) = Some lmd1" "lto lmd1 = Some p"
        "points lmd1 ! 1 = points lmd0 ! 1" by blast
      with wf_bound_to [OF wb this(1,2)] grow [of p _ k] pos show ?thesis by auto
    qed
    then show "\<exists>mmd. metadata (meshes s' p) = Some mmd \<and> k \<in> set (lines mmd)"
      and "points lmd0 ! 1 = position (meshes s' p)" by simp_all
  qed
  have 4: "wf_alias s'"
    unfolding wf_alias_def
  proof (intro conjI allI impI)
    fix k lmd0 p
    assume a: "lmetadata (lineobjs s' k) = Some lmd0 \<and> metadata (meshes s' p) \<noteq> None
        \<and> points lmd0 ! 0 = position (meshes s' p)"
    then have p: "metadata (meshes s p) \<noteq> None" using has by simp
    show "lfrom lmd0 = Some p"
    proof (cases "k = l \<and> type = From")
      case True
      with a new have "lfrom lmd0 = Some m" "position (meshes s m) = position (meshes s p)"
        using pos by auto
      with wf_mesh_inj [OF wm _ p, of m] mmd show ?thesis by simp
    next
      case False
      with a new cl(1) [of k] lmd ab have "\<exists>lmd1. lmetadata (lineobjs s k) = Some lmd1
          \<and> lfrom lmd1 = lfrom lmd0 \<and> points lmd1 ! 0 = points lmd0 ! 0"
        by (cases "k = l") auto
      then obtain lmd1 where "lmetadata (lineobjs s k) = Some lmd1" "lfrom lmd1 = lfrom lmd0"
        "points lmd1 ! 0 = points lmd0 ! 0" by blast
      with wf_alias_from [OF wa this(1) p] a pos show ?thesis by simp
    qed
  next
    fix k lmd0 p
    assume a: "lmetadata (lineobjs s' k) = Some lmd0 \<and> metadata (meshes s' p) \<noteq> None
        \<and> points lmd0 ! 1 = position (meshes s' p)"
    then have p: "metadata (meshes s p) \<noteq> None" using has by simp
    show "lto lmd0 = Some p"
    proof (cases "k = l \<and> type = To")
      case True
      with a new have "lto lmd0 = Some m" "position (meshes s m) = position (meshes s p)"
        using pos by auto
      with wf_mesh_inj [OF wm _ p, of m] mmd show ?thesis by simp
    next
      case False
      with a new cl(1) [of k] lmd ab have "\<exists>lmd1. lmetadata (lineobjs s k) = Some lmd1
          \<and> lto lmd1 = lto lmd0 \<and> points lmd1 ! 1 = points lmd0 ! 1"
        by (cases "k = l"; cases type) auto
      then obtain lmd1 where "lmetadata (lineobjs s k) = Some lmd1" "lto lmd1 = lto lmd0"
        "points lmd1 ! 1 = points lmd0 ! 1" by blast
      with wf_alias_to [OF wa this(1) p] a pos show ?thesis by simp
    qed
  qed
  from 1 2 3 4 show ?thesis by (simp add: wf_scene_def)
qed

lemma step_wf: "step x s = Inr s' \<Longrightarrow> wf_scene s \<Longrightarrow> wf_scene s'"
proof (cases x)
  case (AddMesh type)
  then show "step x s = Inr s' \<Longrightarrow> wf_scene s \<Longrightarrow> wf_scene s'"
    by (auto split: sum.splits dest: addMesh_wf)
next
  case (AddLine m1 m2)
  then show "step x s = Inr s' \<Longrightarrow> wf_scene s \<Longrightarrow> wf_scene s'"
    by (auto split: sum.splits dest: addLine_wf)
qed (auto dest: removeMesh_wf removeLine_wf removeLinesOnMesh_wf connectLine_wf disconnectLine_wf
       disconnectLinesOnMesh_wf move_wf moveTo_wf)

lemma run_wf: "run ops init = Inr s \<Longrightarrow> wf_scene s"
  unfolding run_def using forEach_wf [of step ops init s] step_wf wf_init by blast

text \<open>A line bound at \<open>from\<close> is never a disposed one.\<close>

lemma wf_live_init: "wf_live init"
  by (simp add: wf_live_def init_def)

lemma wf_live_same:
  assumes "\<And>k. lmetadata (lineobjs s' k) = lmetadata (lineobjs s k)"
    and "\<And>k. (vertices (lineobjs s' k) = None) = (vertices (lineobjs s k) = None)"
  shows "wf_live s' = wf_live s"
  by (simp add: wf_live_def assms)

lemma wf_live_one:
  assumes "wf_live s" and "\<And>k. k \<noteq> l \<Longrightarrow> lineobjs s' k = lineobjs s k"
    and "vertices (lineobjs s' l) \<noteq> None"
  shows "wf_live s'"
  unfolding wf_live_def
proof (intro allI impI)
  fix k lmd assume a: "lmetadata (lineobjs s' k) = Some lmd \<and> lfrom lmd \<noteq> None"
  show "vertices (lineobjs s' k) \<noteq> None"
  proof (cases "k = l")
    case True
    with assms(3) show ?thesis by simp
  next
    case False
    with a assms(1,2) show ?thesis by (simp add: wf_live_def)
  qed
qed

lemma dl_live: "disconnectLine (Some m) l s = Inr s' \<Longrightarrow> vertices (lineobjs s' l) \<noteq> None"
  by (auto simp: dl_defs split: option.splits if_splits sum.splits prod.splits list.splits)

lemma dl_live_before: "disconnectLine (Some m) l s = Inr s' \<Longrightarrow> vertices (lineobjs s l) \<noteq> None"
  by (auto simp: dl_defs split: option.splits if_splits sum.splits prod.splits list.splits)

lemma disconnectLine_live: "disconnectLine mo l s = Inr s' \<Longrightarrow> wf_live s \<Longrightarrow> wf_live s'"
proof (cases mo)
  case None
  then show "disconnectLine mo l s = Inr s' \<Longrightarrow> wf_live s'" by (simp add: disconnectLine_def)
next
  case (Some m)
  assume "disconnectLine mo l s = Inr s'" and w: "wf_live s"
  with Some have d: "disconnectLine (Some m) l s = Inr s'" by simp
  from wf_live_one [OF w dl_line_other [OF d] dl_live [OF d]] show "wf_live s'" by simp
qed

lemma cl_live: "connectLine m l type s = Inr s' \<Longrightarrow> vertices (lineobjs s' l) \<noteq> None"
  by (auto simp: cl_defs split: option.splits if_splits)

lemma connectLine_live: "connectLine m l type s = Inr s' \<Longrightarrow> wf_live s \<Longrightarrow> wf_live s'"
  using wf_live_one [of s l s'] cl_line(1) [of m l type s s'] cl_live [of m l type s s'] by simp

lemma addLine_live: "addLine m1 m2 s = Inr (a, s') \<Longrightarrow> wf_live s \<Longrightarrow> wf_live s'"
  using wf_live_one [of s a s'] al_line(4) [of m1 m2 s a s'] al_line(7) [of m1 m2 s a s'] by simp

lemma addMesh_live: "addMesh type s = Inr (r, s') \<Longrightarrow> wf_live s \<Longrightarrow> wf_live s'"
  by (auto simp: addMesh_def RandomId_def CreateMesh_def Let_def wf_live_def split: if_splits)

lemma move_live: "move m diff s = Inr s' \<Longrightarrow> wf_live s \<Longrightarrow> wf_live s'"
  using move_effect [of m diff s s'] wf_live_same [of s' s] by simp

lemma moveTo_live: "moveTo m pt s = Inr s' \<Longrightarrow> wf_live s \<Longrightarrow> wf_live s'"
  by (auto simp: moveTo_def Let_def dest: move_live)

lemma forEach_preserves:
  assumes "\<And>x s s'. f x s = Inr s' \<Longrightarrow> P s \<Longrightarrow> P s'"
  shows "forEach f xs s = Inr s' \<Longrightarrow> P s \<Longrightarrow> P s'"
proof (induction xs arbitrary: s)
  case Nil
  then show ?case by simp
next
  case (Cons x xs)
  from Cons.prems(1) obtain s1 where s1: "f x s = Inr s1" "forEach f xs s1 = Inr s'"
    by (auto split: sum.splits)
  from assms [OF s1(1) Cons.prems(2)] have "P s1" .
  from Cons.IH [OF s1(2) this] show ?case .
qed

lemma disconnectLinesOnMesh_live: "disconnectLinesOnMesh m s = Inr s' \<Longrightarrow> wf_live s \<Longrightarrow> wf_live s'"
  by (auto simp: disconnectLinesOnMesh_def split: option.splits
      elim!: forEach_preserves [where P = wf_live, rotated 1] dest: disconnectLine_live)

lemma removeMesh_live: "removeMesh m s = Inr s' \<Longrightarrow> wf_live s \<Longrightarrow> wf_live s'"
  by (auto simp: removeMesh_def dispose_def wf_live_def split: sum.splits
      dest!: disconnectLinesOnMesh_live)

lemma dl_from_cleared:
  assumes d: "disconnectLine (Some m) l s = Inr s'" and wl: "wf_line s"
    and lmd: "lmetadata (lineobjs s l) = Some lmd" and f: "lfrom lmd = Some m \<or> lfrom lmd = None"
  shows "\<exists>lmd'. lmetadata (lineobjs s' l) = Some lmd' \<and> lfrom lmd' = None"
proof -
  from wf_line_points [OF wl lmd] obtain a b where "points lmd = [a, b]" by blast
  from dl_lmetadata [OF d lmd this] f show ?thesis by auto
qed

text \<open>
  \<open>removeLine\<close> disposes the line only after \<open>from\<close> is cleared: the first branch clears
  it, and the second branch, called with the same mesh, leaves it cleared.
\<close>

lemma removeLine_cleared:
  assumes r: "removeLine l s = Inr s'" and w: "wf_scene s" and v: "wf_live s"
  shows "\<exists>s2. s' = dispose_line l s2 \<and> wf_live s2
           \<and> (\<exists>lmd2. lmetadata (lineobjs s2 l) = Some lmd2 \<and> lfrom lmd2 = None)"
proof -
  from r obtain lmd s1 s2 where lmd: "lmetadata (lineobjs s l) = Some lmd"
    and A: "(if lfrom lmd \<noteq> None then disconnectLine (lfrom lmd) l s else Inr s) = Inr s1"
    and B: "(if lto lmd \<noteq> None then disconnectLine (lfrom lmd) l s1 else Inr s1) = Inr s2"
    and C: "s' = dispose_line l s2"
    by (auto simp: removeLine_def split: option.splits sum.splits)
  have 1: "wf_scene s1 \<and> wf_live s1 \<and> (\<exists>lmd1. lmetadata (lineobjs s1 l) = Some lmd1 \<and> lfrom lmd1 = None)"
  proof (cases "lfrom lmd")
    case None
    with A lmd w v show ?thesis by simp
  next
    case (Some f)
    with A have d: "disconnectLine (Some f) l s = Inr s1" by simp
    from w have "wf_line s" by (simp add: wf_scene_def)
    from dl_from_cleared [OF d this lmd] Some disconnectLine_wf [OF d w] disconnectLine_live [OF d v]
    show ?thesis by simp
  qed
  then obtain lmd1 where w1: "wf_scene s1" and v1: "wf_live s1"
    and lmd1: "lmetadata (lineobjs s1 l) = Some lmd1" "lfrom lmd1 = None" by blast
  have 2: "wf_live s2 \<and> (\<exists>lmd2. lmetadata (lineobjs s2 l) = Some lmd2 \<and> lfrom lmd2 = None)"
  proof (cases "lto lmd")
    case None
    with B v1 lmd1 show ?thesis by simp
  next
    case (Some t)
    with B have d0: "disconnectLine (lfrom lmd) l s1 = Inr s2" by simp
    then obtain f where "lfrom lmd = Some f"
      by (cases "lfrom lmd") (auto simp: disconnectLine_def)
    with d0 have d: "disconnectLine (Some f) l s1 = Inr s2" by simp
    from w1 have "wf_line s1" by (simp add: wf_scene_def)
    from dl_from_cleared [OF d this lmd1(1)] lmd1(2) disconnectLine_live [OF d v1]
    show ?thesis by simp
  qed
  with C show ?thesis by blast
qed

lemma removeLine_live:
  assumes r: "removeLine l s = Inr s'" and w: "wf_scene s" and v: "wf_live s"
  shows "wf_live s'"
proof -
  from removeLine_cleared [OF r w v] obtain s2 lmd2 where s2: "s' = dispose_line l s2" "wf_live s2"
    "lmetadata (lineobjs s2 l) = Some lmd2" "lfrom lmd2 = None" by blast
  show ?thesis
    unfolding wf_live_def
  proof (intro allI impI)
    fix k lmd assume a: "lmetadata (lineobjs s' k) = Some lmd \<and> lfrom lmd \<noteq> None"
    with s2 have "k \<noteq> l" by (auto simp: dispose_line_def)
    with a s2(1,2) show "vertices (lineobjs s' k) \<noteq> None"
      by (simp add: dispose_line_def wf_live_def)
  qed
qed

lemma removeLinesOnMesh_live:
  assumes "removeLinesOnMesh m s = Inr s'" and "wf_scene s \<and> wf_live s"
  shows "wf_scene s' \<and> wf_live s'"
proof -
  from assms(1) obtain mmd :: mesh_metadata where f: "forEach removeLine (lines mmd) s = Inr s'"
    by (auto simp: removeLinesOnMesh_def split: option.splits)
  show ?thesis
  proof (rule forEach_preserves [where P = "\<lambda>s. wf_scene s \<and> wf_live s", OF _ f assms(2)])
    fix x s s' assume "removeLine x s = Inr s'" "wf_scene s \<and> wf_live s"
    then show "wf_scene s' \<and> wf_live s'" using removeLine_wf removeLine_live by blast
  qed
qed

lemma step_live:
  assumes "step x s = Inr s'" and "wf_scene s \<and> wf_live s"
  shows "wf_scene s' \<and> wf_live s'"
proof -
  from step_wf [OF assms(1)] assms(2) have "wf_scene s'" by simp
  moreover have "wf_live s'"
  proof (cases x)
    case (AddMesh type)
    with assms show ?thesis by (auto split: sum.splits dest: addMesh_live)
  next
    case (AddLine m1 m2)
    with assms show ?thesis by (auto split: sum.splits dest: addLine_live)
  next
    case (RemoveLine l)
    with assms show ?thesis by (auto dest: removeLine_live)
  next
    case (RemoveLinesOnMesh m)
    with assms removeLinesOnMesh_live [of m s s'] show ?thesis by simp
  qed (use assms in \<open>auto dest: removeMesh_live connectLine_live disconnectLine_live
         disconnectLinesOnMesh_live move_live moveTo_live\<close>)
  ultimately show ?thesis by simp
qed

lemma run_live: "run ops init = Inr s \<Longrightarrow> wf_live s"
  unfolding run_def
  using forEach_preserves [where P = "\<lambda>s. wf_scene s \<and> wf_live s", of step ops init s]
    step_live wf_init wf_live_init
  by blast

lemma Inr_the_state: "\<not> isl r \<Longrightarrow> r = Inr (the_state r)"
  by (cases r) (simp_all add: the_state_def)


lemma two_boxes_line:
  "lmetadata (lineobjs two_boxes_scene 4) = Some \<lparr>points = [1, 3], lfrom = Some 0, lto = Some 2\<rparr>"
  by code_simp

lemma splice_first_none: "\<forall>x\<in>set xs. \<not> p x \<Longrightarrow> splice_first p xs = xs"
  by (induction xs) simp_all

lemma splice_first_clears:
  "length (filter p xs) \<le> 1 \<Longrightarrow> \<forall>x\<in>set (splice_first p xs). \<not> p x"
proof (induction xs)
  case Nil
  then show ?case by simp
next
  case (Cons a xs)
  show ?case
  proof (cases "p a")
    case True
    with Cons.prems have "filter p xs = []" by simp
    then have "\<forall>x\<in>set xs. \<not> p x" by (simp only: filter_empty_conv)
    with True show ?thesis by simp
  next
    case False
    with Cons.prems have "length (filter p xs) \<le> 1" by simp
    from Cons.IH [OF this] False show ?thesis by simp
  qed
qed

lemma splice_first_idem:
  "length (filter p xs) \<le> 1 \<Longrightarrow> splice_first p (splice_first p xs) = splice_first p xs"
  by (rule splice_first_none) (rule splice_first_clears)

lemma other_or_same_name:
  "(\<lambda>k. k \<noteq> l \<longrightarrow> lname (g k) = lname (g l)) = (\<lambda>k. lname (g k) = lname (g l))"
  by auto

lemma name_if_metadata:
  "name (if c then r\<lparr>metadata := x\<rparr> else r') = (if c then name r else name r')"
  by simp

lemma disconnectLine_twice:
  assumes d: "disconnectLine (Some m) l s = Inr s1"
    and m: "metadata (meshes s m) = Some mmd"
    and lmd: "lmetadata (lineobjs s l) = Some lmd"
    and pts: "points lmd = [a, b]"
    and once: "length (filter (\<lambda>k. lname (lineobjs s k) = lname (lineobjs s l)) (lines mmd)) \<le> 1"
  shows "disconnectLine (Some m) l s1 = Inr s1"
proof -
  note idem = splice_first_idem [OF once]
  note simps = dl_defs other_or_same_name name_if_metadata
  from dl_live_before [OF d] obtain v where v: "vertices (lineobjs s l) = Some v" by blast
  show ?thesis
  proof (cases "lfrom lmd")
    case fn: None
    show ?thesis
    proof (cases "lto lmd")
      case None
      with d m lmd pts idem v fn show ?thesis by (auto simp: simps)
    next
      case (Some t)
      with d m lmd pts idem v fn show ?thesis
        by (cases "name (meshes s t) = name (meshes s m)") (auto simp: simps)
    qed
  next
    case fs: (Some f)
    show ?thesis
    proof (cases "name (meshes s f) = name (meshes s m)")
      case ff: True
      show ?thesis
      proof (cases "lto lmd")
        case None
        with d m lmd pts idem v fs ff show ?thesis by (auto simp: simps)
      next
        case (Some t)
        with d m lmd pts idem v fs ff show ?thesis
          by (cases "name (meshes s t) = name (meshes s m)") (auto simp: simps)
      qed
    next
      case ff: False
      show ?thesis
      proof (cases "lto lmd")
        case None
        with d m lmd pts idem v fs ff show ?thesis by (auto simp: simps)
      next
        case (Some t)
        with d m lmd pts idem v fs ff show ?thesis
          by (cases "name (meshes s t) = name (meshes s m)") (auto simp: simps)
      qed
    qed
  qed
qed

lemma same_name_filter:
  assumes wm: "wf_mesh s" and wl: "wf_line s" and m: "metadata (meshes s m) = Some mmd"
    and l: "lmetadata (lineobjs s l) \<noteq> None"
  shows "filter (\<lambda>k. lname (lineobjs s k) = lname (lineobjs s l)) (lines mmd)
       = filter (\<lambda>k. l = k) (lines mmd)"
proof (rule filter_cong [OF refl])
  fix k assume "k \<in> set (lines mmd)"
  from wf_mesh_lines [OF wm m this] l wf_line_inj [OF wl, of k l]
  show "(lname (lineobjs s k) = lname (lineobjs s l)) = (l = k)" by auto
qed

text \<open>
  In a scene built by the methods, a second \<open>disconnectLine(mesh, line)\<close> changes nothing
  when the list of the mesh holds the line at most once.
\<close>

lemma disconnectLine_twice_once:
  assumes r: "run ops init = Inr s" and d: "disconnectLine (Some m) l s = Inr s1"
    and m: "metadata (meshes s m) = Some mmd" and c: "count_list (lines mmd) l \<le> 1"
  shows "disconnectLine (Some m) l s1 = Inr s1"
proof -
  from run_wf [OF r] have wm: "wf_mesh s" and wl: "wf_line s" by (simp_all add: wf_scene_def)
  from d m obtain lmd where lmd: "lmetadata (lineobjs s l) = Some lmd"
    by (auto simp: disconnectLine_def split: option.splits)
  from wf_line_points [OF wl lmd] obtain a b where pts: "points lmd = [a, b]" by blast
  have "length (filter (\<lambda>k. lname (lineobjs s k) = lname (lineobjs s l)) (lines mmd)) \<le> 1"
    using c same_name_filter [OF wm wl m] lmd by (simp add: count_list_eq_length_filter)
  from disconnectLine_twice [OF d m lmd pts this] show ?thesis .
qed

section \<open>Lines and the lists of the meshes\<close>




section \<open>Removing a line\<close>

text \<open>
  C2. The claim: when \<open>from\<close> is bound to a mesh and \<open>to\<close> to another one, \<open>removeLine\<close>
  clears both bindings and the line leaves the lists of both meshes. The code calls
  \<open>disconnectLine(from, line)\<close> in both branches: for two boxes \<open>0\<close> and \<open>2\<close> joined by the
  line \<open>4\<close>, \<open>removeLine\<close> returns with \<open>to\<close> still bound to \<open>2\<close> and the line still in
  the list of \<open>2\<close>.
\<close>

theorem removeLine_leaves_to_bound:
  "lmetadata (lineobjs two_boxes_scene 4) = Some \<lparr>points = [1, 3], lfrom = Some 0, lto = Some 2\<rparr>
   \<and> \<not> isl (removeLine 4 two_boxes_scene)
   \<and> lmetadata (lineobjs (the_state (removeLine 4 two_boxes_scene)) 4)
       = Some \<lparr>points = [5, 3], lfrom = None, lto = Some 2\<rparr>
   \<and> metadata (meshes (the_state (removeLine 4 two_boxes_scene)) 0)
       = Some \<lparr>mtype = ''box'', lines = []\<rparr>
   \<and> metadata (meshes (the_state (removeLine 4 two_boxes_scene)) 2)
       = Some \<lparr>mtype = ''box'', lines = [4]\<rparr>"
  by code_simp

text \<open>
  C10. For a line with metadata: if \<open>from\<close> is \<open>null\<close> and \<open>to\<close> is bound, \<open>removeLine\<close>
  throws a \<open>TypeError\<close> (the \<open>to\<close> branch reads \<open>metadata\<close> of the \<open>null\<close> \<open>from\<close>); so
  whenever \<open>removeLine\<close> returns and \<open>to\<close> was bound, \<open>from\<close> was bound too.
\<close>

theorem removeLine_faults_on_unbound_from:
  assumes "lmetadata (lineobjs s l) = Some lmd"
  shows "(lfrom lmd = None \<and> lto lmd \<noteq> None \<longrightarrow> removeLine l s = Inl TypeError)
       \<and> (\<forall>s'. removeLine l s = Inr s' \<longrightarrow> lto lmd \<noteq> None \<longrightarrow> lfrom lmd \<noteq> None)"
  using assms by (auto simp: removeLine_def disconnectLine_def)

theorem removeLine_faults_on_unbound_from_witness:
  "lmetadata (lineobjs (the_state (disconnectLine (Some 0) 4 two_boxes_scene)) 4)
     = Some \<lparr>points = [5, 3], lfrom = None, lto = Some 2\<rparr>
   \<and> removeLine 4 (the_state (disconnectLine (Some 0) 4 two_boxes_scene)) = Inl TypeError"
proof -
  have h: "lmetadata (lineobjs (the_state (disconnectLine (Some 0) 4 two_boxes_scene)) 4)
     = Some \<lparr>points = [5, 3], lfrom = None, lto = Some 2\<rparr>"
    by code_simp
  from removeLine_faults_on_unbound_from [OF h] show ?thesis using h by simp
qed

section \<open>Self-loops\<close>

text \<open>
  C3. The claim: after \<open>addLine(P, P)\<close> the list of \<open>P\<close> holds the new line exactly once.
  The code pushes the line onto \<open>mesh1.metadata.lines\<close> and onto \<open>mesh2.metadata.lines\<close>
  with no test, so for every mesh \<open>p\<close> with metadata \<open>addLine p p\<close> returns a line with both
  endpoints bound to \<open>p\<close>, and the list of \<open>p\<close> ends with that line twice.
\<close>

theorem addLine_self_loop_pushes_twice:
  assumes "metadata (meshes s p) = Some mmd"
  shows "\<exists>l s'. addLine p p s = Inr (l, s')
           \<and> lmetadata (lineobjs s' l) =
               Some \<lparr>points = [position (meshes s p), position (meshes s p)], lfrom = Some p, lto = Some p\<rparr>
           \<and> metadata (meshes s' p) = Some (mmd\<lparr>lines := lines mmd @ [l, l]\<rparr>)"
  using assms
  by (simp add: addLine_def RandomId_def CreateLines_def push_line_def Let_def)

theorem addLine_self_loop_pushes_twice_witness:
  "metadata (meshes (the_state (run [AddMesh ''sphere''] init)) 0) = Some \<lparr>mtype = ''sphere'', lines = []\<rparr>
   \<and> (\<exists>l s'. addLine 0 0 (the_state (run [AddMesh ''sphere''] init)) = Inr (l, s')
          \<and> metadata (meshes s' 0) = Some \<lparr>mtype = ''sphere'', lines = [l, l]\<rparr>)"
proof -
  let ?s = "the_state (run [AddMesh ''sphere''] init)"
  have h: "metadata (meshes ?s 0) = Some \<lparr>mtype = ''sphere'', lines = []\<rparr>"
    by code_simp
  from addLine_self_loop_pushes_twice [OF h] show ?thesis using h by auto
qed

text \<open>
  C9. The claim: \<open>disconnectLine(P, C)\<close> twice leaves the state that one call leaves. On
  the self-loop \<open>2\<close> of the box \<open>0\<close> the list of \<open>0\<close> is \<open>[2, 2]\<close>; one call leaves \<open>[2]\<close>,
  the second call removes that entry too. (When the list holds the line at most once,
  the second call changes nothing: \<open>disconnectLine_twice_once\<close>.)
\<close>

theorem disconnectLine_twice_differs_on_self_loop:
  "metadata (meshes self_loop_scene 0) = Some \<lparr>mtype = ''box'', lines = [2, 2]\<rparr>
   \<and> \<not> isl (disconnectLine (Some 0) 2 self_loop_scene)
   \<and> metadata (meshes (the_state (disconnectLine (Some 0) 2 self_loop_scene)) 0)
       = Some \<lparr>mtype = ''box'', lines = [2]\<rparr>
   \<and> \<not> isl (disconnectLine (Some 0) 2 (the_state (disconnectLine (Some 0) 2 self_loop_scene)))
   \<and> metadata (meshes (the_state (disconnectLine (Some 0) 2
         (the_state (disconnectLine (Some 0) 2 self_loop_scene)))) 0)
       = Some \<lparr>mtype = ''box'', lines = []\<rparr>"
  by code_simp

section \<open>Binding an endpoint again\<close>

text \<open>In a scene built by the methods, a line bound at \<open>from\<close> has not been disposed.\<close>

lemma from_bound_line_live:
  assumes "run ops init = Inr s" and "lmetadata (lineobjs s c) = Some lmd" and "lfrom lmd = Some p1"
  shows "vertices (lineobjs s c) \<noteq> None"
  using run_live [OF assms(1)] assms(2,3) by (auto simp: wf_live_def)

text \<open>
  C4, as the code has it: when the \<open>from\<close> end of a line that has not been disposed is
  bound to \<open>p1\<close>, \<open>connectLine(p2, line, 'from')\<close> for another mesh \<open>p2\<close> with metadata
  returns, binds \<open>from\<close> to \<open>p2\<close>, makes the first point the position vector of \<open>p2\<close>,
  leaves \<open>to\<close> as it was, and leaves the metadata of \<open>p1\<close>, its list of lines included, as
  it was.
\<close>

theorem connectLine_rebinds_from:
  assumes "metadata (meshes s p2) = Some mmd2" and "lmetadata (lineobjs s c) = Some lmd"
    and "lfrom lmd = Some p1" and "p1 \<noteq> p2" and "vertices (lineobjs s c) \<noteq> None"
  shows "\<exists>s' lmd'. connectLine p2 c From s = Inr s'
           \<and> lmetadata (lineobjs s' c) = Some lmd'
           \<and> lfrom lmd' = Some p2 \<and> lto lmd' = lto lmd
           \<and> points lmd' = set_first (points lmd) (position (meshes s p2))
           \<and> metadata (meshes s' p1) = metadata (meshes s p1)"
  using assms by (auto simp: connectLine_def updateLine_def Let_def)

theorem connectLine_rebinds_from_witness:
  "metadata (meshes two_boxes_scene 2) = Some \<lparr>mtype = ''box'', lines = [4]\<rparr>
   \<and> lmetadata (lineobjs two_boxes_scene 4) = Some \<lparr>points = [1, 3], lfrom = Some 0, lto = Some 2\<rparr>
   \<and> vertices (lineobjs two_boxes_scene 4) \<noteq> None
   \<and> (\<exists>s' lmd'. connectLine 2 4 From two_boxes_scene = Inr s'
          \<and> lmetadata (lineobjs s' 4) = Some lmd' \<and> lfrom lmd' = Some 2
          \<and> metadata (meshes s' 0) = metadata (meshes two_boxes_scene 0))"
proof -
  have 1: "metadata (meshes two_boxes_scene 2) = Some \<lparr>mtype = ''box'', lines = [4]\<rparr>" by code_simp
  have 3: "lfrom \<lparr>points = [1, 3], lfrom = Some 0, lto = Some (2::nat)\<rparr> = Some 0" by simp
  have 4: "(0::nat) \<noteq> 2" by simp
  have 5: "vertices (lineobjs two_boxes_scene 4) \<noteq> None" by code_simp
  from connectLine_rebinds_from [OF 1 two_boxes_line 3 4 5] 1 two_boxes_line 5 show ?thesis by blast
qed

text \<open>
  The claim of C4 asks for the line to leave the list of the old mesh when \<open>to\<close> is bound
  elsewhere. Here \<open>to\<close> is bound to the mesh \<open>4\<close>, \<open>from\<close> moves from \<open>0\<close> to \<open>2\<close>, and the
  line \<open>6\<close> is still in the list of \<open>0\<close>.
\<close>

theorem connectLine_keeps_old_list_example:
  "lmetadata (lineobjs three_boxes_scene 6) = Some \<lparr>points = [1, 5], lfrom = Some 0, lto = Some 4\<rparr>
   \<and> \<not> isl (connectLine 2 6 From three_boxes_scene)
   \<and> lmetadata (lineobjs (the_state (connectLine 2 6 From three_boxes_scene)) 6)
       = Some \<lparr>points = [3, 5], lfrom = Some 2, lto = Some 4\<rparr>
   \<and> metadata (meshes (the_state (connectLine 2 6 From three_boxes_scene)) 0)
       = Some \<lparr>mtype = ''box'', lines = [6]\<rparr>"
  by code_simp

section \<open>Moving a mesh\<close>


text \<open>
  \<open>removeLine\<close> can leave the line it disposes in the list of the mesh bound at \<open>to\<close> (see
  C2): after \<open>addLine(2, 0)\<close> and \<open>removeLine(4)\<close> the disposed line \<open>4\<close> is in the list of
  the box \<open>0\<close>.
\<close>

lemma run_dangling_line:
  "run [AddMesh ''box'', AddMesh ''box'', AddLine 2 0, RemoveLine 4] init = Inr dangling_line_scene"
  unfolding dangling_line_scene_def by (rule Inr_the_state) code_simp

lemma dangling_line_list: "metadata (meshes dangling_line_scene 0) = Some \<lparr>mtype = ''box'', lines = [4]\<rparr>"
  by code_simp

lemma dangling_line_other_list: "metadata (meshes dangling_line_scene 2) = Some \<lparr>mtype = ''box'', lines = []\<rparr>"
  by code_simp

lemma dangling_line_position: "position (meshes dangling_line_scene 0) = 1"
  by code_simp

lemma dangling_line_other_position: "position (meshes dangling_line_scene 2) = 3"
  by code_simp

lemma dangling_line_next: "next_ref dangling_line_scene = 6"
  by code_simp

lemma dangling_line_metadata:
  "lmetadata (lineobjs dangling_line_scene 4) = Some \<lparr>points = [5, 1], lfrom = None, lto = Some 0\<rparr>"
  by code_simp

lemma dangling_line_disposed: "vertices (lineobjs dangling_line_scene 4) = None"
  by code_simp

lemma forEach_snoc:
  "forEach f (xs @ [x]) s = (case forEach f xs s of Inl e \<Rightarrow> Inl e | Inr s' \<Rightarrow> f x s')"
  by (induction xs arbitrary: s) (simp_all split: sum.splits)

text \<open>
  \<open>addLine(0, 2)\<close> then makes the box \<open>0\<close> the \<open>from\<close> end of the line \<open>6\<close>. \<open>move\<close> redraws
  every line of the list of the box, and on the disposed line \<open>4\<close> the redraw throws.
\<close>

lemma moveTo_throws_on_disposed_line:
  "run [AddMesh ''box'', AddMesh ''box'', AddLine 2 0, RemoveLine 4, AddLine 0 2] init
     = Inr removed_line_scene
   \<and> metadata (meshes removed_line_scene 0) = Some \<lparr>mtype = ''box'', lines = [4, 6]\<rparr>
   \<and> vertices (lineobjs removed_line_scene 4) = None
   \<and> lmetadata (lineobjs removed_line_scene 6) = Some \<lparr>points = [1, 3], lfrom = Some 0, lto = Some 2\<rparr>
   \<and> moveTo 0 x5 removed_line_scene = Inl TypeError"
proof -
  note al = addLine_def RandomId_def CreateLines_def push_line_def Let_def
    dangling_line_list dangling_line_other_list dangling_line_position
    dangling_line_other_position dangling_line_next
  have "run ([AddMesh ''box'', AddMesh ''box'', AddLine 2 0, RemoveLine 4] @ [AddLine 0 2]) init
          = step (AddLine 0 2) dangling_line_scene"
    unfolding run_def forEach_snoc using run_dangling_line by (simp add: run_def)
  then have r: "run [AddMesh ''box'', AddMesh ''box'', AddLine 2 0, RemoveLine 4, AddLine 0 2] init
                  = step (AddLine 0 2) dangling_line_scene"
    by simp
  then have s: "removed_line_scene = the_state (step (AddLine 0 2) dangling_line_scene)"
    by (simp add: removed_line_scene_def)
  have "\<not> isl (step (AddLine 0 2) dangling_line_scene)" by (simp add: al)
  from Inr_the_state [OF this] r s
  have 0: "run [AddMesh ''box'', AddMesh ''box'', AddLine 2 0, RemoveLine 4, AddLine 0 2] init
             = Inr removed_line_scene"
    by simp
  have 1: "metadata (meshes removed_line_scene 0) = Some \<lparr>mtype = ''box'', lines = [4, 6]\<rparr>"
    by (simp add: s the_state_def al)
  have 2: "vertices (lineobjs removed_line_scene 4) = None"
    by (simp add: s the_state_def al dangling_line_disposed)
  have 3: "lmetadata (lineobjs removed_line_scene 6)
             = Some \<lparr>points = [1, 3], lfrom = Some 0, lto = Some 2\<rparr>"
    by (simp add: s the_state_def al)
  have 4: "lmetadata (lineobjs removed_line_scene 4)
             = Some \<lparr>points = [5, 1], lfrom = None, lto = Some 0\<rparr>"
    by (simp add: s the_state_def al dangling_line_metadata)
  have 5: "moveTo 0 x5 removed_line_scene = Inl TypeError"
    by (simp add: moveTo_def move_def updateLinesOnMesh_def updateLine_def Let_def 1 2 4)
  from 0 1 2 3 5 show ?thesis by simp
qed





section \<open>The root of a node\<close>

lemma root_mesh_ancestor:
  "ancestor s k m = Some r \<Longrightarrow> parent (meshes s r) = None \<Longrightarrow> k < d \<Longrightarrow> root_mesh d s m = Inr r"
proof (induction k arbitrary: m d)
  case 0
  then obtain d' where "d = Suc d'" by (cases d) auto
  with 0 show ?case by simp
next
  case (Suc k)
  from Suc.prems(3) obtain d' where d: "d = Suc d'" "k < d'" by (cases d) auto
  from Suc.prems(1) obtain p where p: "parent (meshes s m) = Some p" "ancestor s k p = Some r"
    by (auto split: option.splits)
  from Suc.IH [OF p(2) Suc.prems(2) d(2)] p(1) d(1) show ?case by simp
qed

lemma root_mesh_overflow:
  "(\<And>k r. k < d \<Longrightarrow> ancestor s k m = Some r \<Longrightarrow> parent (meshes s r) \<noteq> None) \<Longrightarrow>
   root_mesh d s m = Inl RangeError"
proof (induction d arbitrary: m)
  case 0
  show ?case by simp
next
  case (Suc d)
  have "parent (meshes s m) \<noteq> None" by (rule Suc.prems [of 0]) simp_all
  then obtain p where p: "parent (meshes s m) = Some p" by blast
  have "root_mesh d s p = Inl RangeError"
  proof (rule Suc.IH)
    fix k r assume "k < d" "ancestor s k p = Some r"
    with p have "Suc k < Suc d" "ancestor s (Suc k) m = Some r" by simp_all
    then show "parent (meshes s r) \<noteq> None" by (rule Suc.prems)
  qed
  with p show ?case by simp
qed

lemma ancestor_add:
  "ancestor s k m = Some r \<Longrightarrow> ancestor s (k + j) m = ancestor s j r"
  by (induction k arbitrary: m) (auto split: option.splits)

lemma ancestor_end:
  assumes "ancestor s k m = Some r" and "parent (meshes s r) = None" and "k < i"
  shows "ancestor s i m = None"
proof -
  from \<open>k < i\<close> obtain j where i: "i = k + Suc j" using less_imp_Suc_add by (metis add_Suc_right)
  have "ancestor s (Suc j) r = None" using assms(2) by simp
  with ancestor_add [OF assms(1), of "Suc j"] i show ?thesis by simp
qed

lemma ancestor_cycle_iter: "ancestor s j r = Some r \<Longrightarrow> ancestor s (n * j) r = Some r"
proof (induction n)
  case 0
  then show ?case by simp
next
  case (Suc n)
  then have "ancestor s (n * j) r = Some r" by simp
  from ancestor_add [OF this, of j] Suc.prems show ?case by (simp add: add.commute)
qed

lemma cycle_has_parents:
  assumes "ancestor s k m = Some r" and "0 < j" and "ancestor s j r = Some r"
    and i: "ancestor s i m = Some t"
  shows "parent (meshes s t) \<noteq> None"
proof
  assume n: "parent (meshes s t) = None"
  have "ancestor s (k + Suc i * j) m = ancestor s (Suc i * j) r"
    by (rule ancestor_add [OF assms(1)])
  also have "\<dots> = Some r" by (rule ancestor_cycle_iter [OF assms(3)])
  finally have 1: "ancestor s (k + Suc i * j) m = Some r" .
  have "Suc i * 1 \<le> Suc i * j" using assms(2) by (intro mult_le_mono2) simp
  then have "i < k + Suc i * j" by simp
  from ancestor_end [OF i n this] 1 show False by simp
qed

lemma root_mesh_cycle:
  assumes "ancestor s k m = Some r" and "0 < j" and "ancestor s j r = Some r"
  shows "root_mesh d s m = Inl RangeError"
  by (rule root_mesh_overflow) (rule cycle_has_parents [OF assms])

lemma root_mesh_too_deep:
  assumes "ancestor s k m = Some r" and "parent (meshes s r) = None" and "d \<le> k"
  shows "root_mesh d s m = Inl RangeError"
proof (rule root_mesh_overflow)
  fix i t assume i: "i < d" "ancestor s i m = Some t"
  show "parent (meshes s t) \<noteq> None"
  proof
    assume "parent (meshes s t) = None"
    from ancestor_end [OF i(2) this, of k] i(1) assms(1,3) show False by simp
  qed
qed

text \<open>
  C6, as the code has it, for a call of \<open>root\<close> made when the call stack has room for \<open>d\<close>
  more frames: when the parent chain of \<open>m\<close> ends after \<open>k\<close> steps in a node \<open>r\<close> without
  parent, \<open>root\<close> returns \<open>r\<close> if \<open>k < d\<close> and throws a \<open>RangeError\<close> otherwise; when
  the chain contains a cycle, \<open>root\<close> throws a \<open>RangeError\<close> whatever \<open>d\<close> is. The code
  has no test for cycles: the call ends because the stack is exhausted.
\<close>

theorem root_mesh_resolution:
  "(\<forall>k r. ancestor s k m = Some r \<and> parent (meshes s r) = None \<and> k < d \<longrightarrow> root_mesh d s m = Inr r)
 \<and> (\<forall>k r. ancestor s k m = Some r \<and> parent (meshes s r) = None \<and> d \<le> k \<longrightarrow>
        root_mesh d s m = Inl RangeError)
 \<and> (\<forall>k r j. ancestor s k m = Some r \<and> 0 < j \<and> ancestor s j r = Some r \<longrightarrow>
        root_mesh d s m = Inl RangeError)"
  using root_mesh_ancestor [of s _ m _ d] root_mesh_too_deep [of s _ m _ d]
    root_mesh_cycle [of s _ m _ _ d]
  by blast

theorem root_mesh_resolution_witness:
  "root_mesh 1000 chain_scene 0 = Inr 2 \<and> root_mesh 1000 chain_scene 1 = Inr 2
   \<and> root_mesh 1000 chain_scene 2 = Inr 2 \<and> root_mesh 2 chain_scene 0 = Inl RangeError
   \<and> root_mesh 1000 cyclic_scene 1 = Inl RangeError"
proof -
  have a: "ancestor chain_scene 2 0 = Some 2 \<and> parent (meshes chain_scene 2) = None \<and> (2::nat) < 1000"
    by (simp add: chain_scene_def numeral_2_eq_2)
  have b: "ancestor chain_scene 1 1 = Some 2 \<and> parent (meshes chain_scene 2) = None \<and> (1::nat) < 1000"
    by (simp add: chain_scene_def)
  have c: "ancestor chain_scene 0 2 = Some 2 \<and> parent (meshes chain_scene 2) = None \<and> (0::nat) < 1000"
    by (simp add: chain_scene_def)
  have e: "ancestor chain_scene 2 0 = Some 2 \<and> parent (meshes chain_scene 2) = None \<and> (2::nat) \<le> 2"
    by (simp add: chain_scene_def numeral_2_eq_2)
  have f: "ancestor cyclic_scene 0 1 = Some 1 \<and> (0::nat) < 2 \<and> ancestor cyclic_scene 2 1 = Some 1"
    by (simp add: cyclic_scene_def numeral_2_eq_2)
  note ends = root_mesh_resolution [THEN conjunct1, rule_format]
  note deep = root_mesh_resolution [THEN conjunct2, THEN conjunct1, rule_format]
  note cycles = root_mesh_resolution [THEN conjunct2, THEN conjunct2, rule_format]
  from ends [OF a] ends [OF b] ends [OF c] deep [OF e] cycles [OF f]
  show ?thesis by simp
qed

text \<open>
  The claim asks \<open>root\<close> to fail with a \<open>CycleError\<close> on a cycle. On the cycle of
  \<open>cyclic_scene\<close> the call \<open>root(0)\<close> ends with the \<open>RangeError\<close> of the exhausted stack,
  here with room for a thousand frames, which is more than enough for \<open>chain_scene\<close>.
\<close>

theorem root_mesh_cycle_range_error:
  "root_mesh 1000 cyclic_scene 0 = Inl RangeError \<and> root_mesh 1000 chain_scene 0 = Inr 2"
proof -
  have a: "ancestor cyclic_scene 0 0 = Some 0" by simp
  have b: "ancestor cyclic_scene 2 0 = Some 0"
    by (simp add: cyclic_scene_def numeral_2_eq_2)
  have c: "ancestor chain_scene 2 0 = Some 2" "parent (meshes chain_scene 2) = None"
    by (simp_all add: chain_scene_def numeral_2_eq_2)
  have "root_mesh 1000 cyclic_scene 0 = Inl RangeError" by (rule root_mesh_cycle [OF a _ b]) simp
  moreover have "root_mesh 1000 chain_scene 0 = Inr 2" by (rule root_mesh_ancestor [OF c]) simp
  ultimately show ?thesis by simp
qed

section \<open>Importing\<close>

lemma meshes_rename_node [simp]:
  "parent (meshes (rename_node a s) m) = parent (meshes s m)"
  "metadata (meshes (rename_node a s) m) = metadata (meshes s m)"
  by (simp_all add: rename_node_def RandomId_def)

lemma meshes_rename_geometry [simp]: "meshes (rename_geometry a s) = meshes s"
  by (simp add: rename_geometry_def RandomId_def)

lemma parent_fold_rename_node [simp]:
  "parent (meshes (fold rename_node xs s) m) = parent (meshes s m)"
  by (induction xs arbitrary: s) simp_all

lemma meshes_fold_rename_geometry [simp]: "meshes (fold rename_geometry xs s) = meshes s"
  by (induction xs arbitrary: s) simp_all

text \<open>
  C7, as the code has it: \<open>importMesh\<close> fails with the loader's error when the loader
  fails, and with a \<open>TypeError\<close> when no loaded mesh is without parent; otherwise it
  returns the first loaded mesh without parent, with \<open>type\<close> \<open>import\<close> and no lines,
  however many meshes without parent there are.
\<close>

theorem importMesh_outcomes:
  "(\<forall>e. ImportMeshAsync s = Inl e \<longrightarrow> importMesh ImportMeshAsync s = Inl e)
 \<and> (\<forall>result s0. ImportMeshAsync s = Inr (result, s0) \<longrightarrow>
       (case find (\<lambda>m. parent (meshes s0 m) = None) (res_meshes result) of
          None \<Rightarrow> importMesh ImportMeshAsync s = Inl TypeError
        | Some rootMesh \<Rightarrow>
            (\<exists>s'. importMesh ImportMeshAsync s = Inr ((result, rootMesh), s')
                \<and> metadata (meshes s' rootMesh) = Some \<lparr>mtype = ''import'', lines = []\<rparr>
                \<and> parent (meshes s' rootMesh) = None)))"
  by (auto simp: importMesh_def Let_def split: option.splits dest: find_Some_iff [THEN iffD1])

theorem importMesh_outcomes_witness:
  "importMesh load_fails init = Inl LoadError
 \<and> importMesh load_child_only init = Inl TypeError
 \<and> (\<exists>s'. importMesh load_two_roots init
               = Inr ((\<lparr>res_meshes = [0, 1], res_transformNodes = [], res_geometries = []\<rparr>, 0), s')
        \<and> metadata (meshes s' 0) = Some \<lparr>mtype = ''import'', lines = []\<rparr>
        \<and> parent (meshes s' 0) = None)"
  using importMesh_outcomes [of load_fails init]
        importMesh_outcomes [of load_child_only init]
        importMesh_outcomes [of load_two_roots init]
  by (simp add: load_fails_def load_child_only_def load_two_roots_def)

text \<open>
  The claim asks for a failure when more than one loaded mesh has no parent. With the
  two roots \<open>0\<close> and \<open>1\<close> of \<open>load_two_roots\<close>, \<open>importMesh\<close> returns the mesh \<open>0\<close>.
\<close>

theorem importMesh_two_roots_returns:
  "\<not> isl (importMesh load_two_roots init)
   \<and> snd (fst (projr (importMesh load_two_roots init))) = 0
   \<and> parent (meshes (snd (projr (importMesh load_two_roots init))) 0) = None
   \<and> parent (meshes (snd (projr (importMesh load_two_roots init))) 1) = None"
  by code_simp

section \<open>Creating a mesh of an unknown type\<close>

text \<open>
  C8, as the code has it: for a type other than \<open>box\<close> and \<open>sphere\<close>, \<open>addMesh\<close> returns
  \<open>null\<close> and leaves the scene as it was. Nothing is thrown.
\<close>

theorem addMesh_unsupported_returns_null:
  assumes "type \<noteq> ''box''" and "type \<noteq> ''sphere''"
  shows "addMesh type s = Inr (None, s)"
  using assms by (simp add: addMesh_def)

theorem addMesh_unsupported_returns_null_witness:
  "''cylinder'' \<noteq> ''box'' \<and> ''cylinder'' \<noteq> ''sphere'' \<and> addMesh ''cylinder'' init = Inr (None, init)"
  using addMesh_unsupported_returns_null [of "''cylinder''" init] by simp

text \<open>The claim asks for a failure; \<open>addMesh('cone', ...)\<close> returns.\<close>

theorem addMesh_cone_does_not_fail:
  "\<not> isl (addMesh ''cone'' init) \<and> addMesh ''cone'' init = Inr (None, init)"
  by (simp add: addMesh_def)

end
